theory Spec2Isabelle
  imports Main
begin

section \<open>JavaScript strings\<close>

text \<open>
  A JavaScript string is a sequence of UTF-16 code units; each code unit is carried as a
  natural number, so that the Chinese labels of the dashboard and the whitespace class of
  the regular expressions can be written out. ASCII literals of the source are written
  with \<open>str\<close>.
\<close>

type_synonym jsstring = "nat list"

definition str :: "string \<Rightarrow> jsstring" where
  "str s = map of_char s"

text \<open>\<open>haystack.includes(needle)\<close>: the needle occurs as a contiguous run.\<close>

fun str_includes :: "jsstring \<Rightarrow> jsstring \<Rightarrow> bool" where
  "str_includes [] sub = (sub = [])"
| "str_includes (c # cs) sub = (take (length sub) (c # cs) = sub \<or> str_includes cs sub)"

text \<open>\<open>s.startsWith(p)\<close>.\<close>

definition startsWith :: "jsstring \<Rightarrow> jsstring \<Rightarrow> bool" where
  "startsWith s p = (take (length p) s = p)"

text \<open>
  \<open>s.toLowerCase()\<close> on the code units \<open>A\<close>..\<open>Z\<close>. Code units outside ASCII are
  left as they are, which is what JavaScript does for every caseless script (the CJK text
  of the dashboard among them).
\<close>

definition lower_unit :: "nat \<Rightarrow> nat" where
  "lower_unit c = (if 65 \<le> c \<and> c \<le> 90 then c + 32 else c)"

definition toLowerCase :: "jsstring \<Rightarrow> jsstring" where
  "toLowerCase s = map lower_unit s"

text \<open>
  The class \<open>\s\<close> of a JavaScript regular expression, which is also what \<open>trim\<close>
  strips: the white space and line terminator code points.
\<close>

definition is_space :: "nat \<Rightarrow> bool" where
  "is_space c = (c \<in> {9, 10, 11, 12, 13, 32, 160, 5760, 8232, 8233, 8239, 8287, 12288, 65279}
                 \<or> (8192 \<le> c \<and> c \<le> 8202))"

text \<open>
  \<open>s.replace(/\s+/g, " ")\<close>: every maximal run of white space becomes one space. The
  flag says that the code unit before was white space, so that the run is already
  replaced.
\<close>

fun collapse_from :: "bool \<Rightarrow> jsstring \<Rightarrow> jsstring" where
  "collapse_from in_run [] = []"
| "collapse_from in_run (c # cs) =
     (if is_space c then (if in_run then collapse_from True cs else 32 # collapse_from True cs)
      else c # collapse_from False cs)"

definition collapse_spaces :: "jsstring \<Rightarrow> jsstring" where
  "collapse_spaces s = collapse_from False s"

definition trim :: "jsstring \<Rightarrow> jsstring" where
  "trim s = rev (dropWhile is_space (rev (dropWhile is_space s)))"

text \<open>
  \<open>normalize = (s) => String(s ?? "").replace(/\s+/g, " ").trim()\<close>. The argument is
  the text content of an element that optional chaining may have found missing
  (\<open>None\<close> is \<open>undefined\<close>).
\<close>

definition normalize_text :: "jsstring option \<Rightarrow> jsstring" where
  "normalize_text s = trim (collapse_spaces (case s of None \<Rightarrow> [] | Some t \<Rightarrow> t))"

section \<open>JavaScript values and the preference store\<close>

datatype jsval =
    JUndefined
  | JNull
  | JBool bool
  | JNum int
  | JStr jsstring
  | JObj "(string \<times> jsval) list"

text \<open>Truthiness, as \<open>!x\<close> and \<open>x || y\<close> test it.\<close>

fun truthy :: "jsval \<Rightarrow> bool" where
  "truthy JUndefined = False"
| "truthy JNull = False"
| "truthy (JBool b) = b"
| "truthy (JNum n) = (n \<noteq> 0)"
| "truthy (JStr s) = (s \<noteq> [])"
| "truthy (JObj kvs) = True"

type_synonym jsobject = "string \<rightharpoonup> jsval"

text \<open>Reading a property: a missing one reads as \<open>undefined\<close>.\<close>

definition get_prop :: "jsobject \<Rightarrow> string \<Rightarrow> jsval" where
  "get_prop obj k = (case obj k of None \<Rightarrow> JUndefined | Some v \<Rightarrow> v)"

fun dec :: "nat \<Rightarrow> string" where
  "dec n = (if n < 10 then [char_of (48 + n)] else dec (n div 10) @ [char_of (48 + n mod 10)])"

text \<open>
  The own enumerable properties that an object spread \<open>{...v}\<close> copies: those of an
  object, the indexed code units of a string, nothing for any other value.
\<close>

fun own_props :: "jsval \<Rightarrow> jsobject" where
  "own_props (JObj kvs) = map_of kvs"
| "own_props (JStr s) = map_of (zip (map dec [0..<length s]) (map (\<lambda>c. JStr [c]) s))"
| "own_props v = Map.empty"

definition DEFAULT_PREFS :: "(string \<times> jsval) list" where
  "DEFAULT_PREFS =
     [(''autoRefresh'', JBool False),
      (''autoRefreshExplicit'', JBool False),
      (''refreshMinutes'', JNum 5),
      (''closeTempTab'', JBool True)]"

text \<open>
  \<open>chrome.storage.sync.get({ [PREFS_KEY]: DEFAULT_PREFS })\<close> followed by
  \<open>stored[PREFS_KEY]\<close>: the value kept under the key, the default when the key is absent
  (\<open>None\<close>).
\<close>

definition stored_prefs :: "jsval option \<Rightarrow> jsval" where
  "stored_prefs kept = (case kept of None \<Rightarrow> JObj DEFAULT_PREFS | Some v \<Rightarrow> v)"

text \<open>
  \<open>{ ...DEFAULT_PREFS, ...(stored[PREFS_KEY] || {}) }\<close>: the stored properties override
  the defaults.
\<close>

definition merged_prefs :: "jsval option \<Rightarrow> jsobject" where
  "merged_prefs kept =
     (let v = stored_prefs kept
      in map_of DEFAULT_PREFS ++ own_props (if truthy v then v else JObj []))"

text \<open>
  \<open>getPrefs\<close> of the background worker, on the value the synced storage returned
  (\<open>sw.js\<close> holds the same function word for word).
\<close>

definition getPrefs :: "jsval option \<Rightarrow> jsobject" where
  "getPrefs kept =
     (let prefs = merged_prefs kept
      in if \<not> truthy (get_prop prefs ''autoRefreshExplicit'')
         then prefs(''autoRefresh'' \<mapsto> JBool False)
         else prefs)"

text \<open>\<open>getPrefs\<close> of the popup (\<open>ui/app.js\<close>), which repeats the same three statements.\<close>

definition ui_getPrefs :: "jsval option \<Rightarrow> jsobject" where
  "ui_getPrefs kept =
     (let prefs = map_of DEFAULT_PREFS
                    ++ own_props (if truthy (stored_prefs kept) then stored_prefs kept else JObj [])
      in if \<not> truthy (get_prop prefs ''autoRefreshExplicit'')
         then prefs(''autoRefresh'' \<mapsto> JBool False)
         else prefs)"

section \<open>The DOM extractor\<close>

subsection \<open>The two patterns\<close>

text \<open>
  Both regular expressions of the extractor are sequences of a literal, \<open>\s*\<close>, a one-unit
  class and \<open>[0-9.]+\<close>. What follows a starred or plussed class never begins with a unit
  of that class, so the greedy match is the only one and no backtracking is modelled.
  Each piece takes the rest of the text and returns what is left after it.
\<close>

definition lit :: "jsstring \<Rightarrow> jsstring \<Rightarrow> jsstring option" where
  "lit p s = (if take (length p) s = p then Some (drop (length p) s) else None)"

definition one_of :: "nat list \<Rightarrow> jsstring \<Rightarrow> jsstring option" where
  "one_of cls s = (case s of [] \<Rightarrow> None | c # r \<Rightarrow> if c \<in> set cls then Some r else None)"

definition spaces :: "jsstring \<Rightarrow> jsstring" where
  "spaces s = dropWhile is_space s"

text \<open>The class \<open>[0-9.]\<close>.\<close>

definition is_num_unit :: "nat \<Rightarrow> bool" where
  "is_num_unit c = ((48 \<le> c \<and> c \<le> 57) \<or> c = 46)"

text \<open>The group \<open>([0-9.]+)\<close>: the captured run and the rest.\<close>

definition number_run :: "jsstring \<Rightarrow> (jsstring \<times> jsstring) option" where
  "number_run s =
     (if takeWhile is_num_unit s = [] then None
      else Some (takeWhile is_num_unit s, dropWhile is_num_unit s))"

text \<open>
  The balance pattern, anchored at the head of the text: the two code units U+4F59 U+989D
  of the word for balance, \<open>\s*\<close>, an ASCII colon or the full-width colon U+FF1A,
  \<open>\s*\<close>, a dollar sign, \<open>\s*\<close> and the group \<open>([0-9.]+)\<close>. The result is the
  captured group.
\<close>

definition balance_at :: "jsstring \<Rightarrow> jsstring option" where
  "balance_at s =
     Option.bind (lit [0x4F59, 0x989D] s) (\<lambda>r1.
     Option.bind (one_of [58, 0xFF1A] (spaces r1)) (\<lambda>r2.
     Option.bind (lit [36] (spaces r2)) (\<lambda>r3.
     map_option fst (number_run (spaces r3)))))"

text \<open>\<open>mainText.match(...)\<close>: the leftmost position where the pattern matches.\<close>

fun match_balance :: "jsstring \<Rightarrow> jsstring option" where
  "match_balance [] = balance_at []"
| "match_balance (c # cs) =
     (case balance_at (c # cs) of Some g \<Rightarrow> Some g | None \<Rightarrow> match_balance cs)"

text \<open>
  \<open>/\$\s*([0-9.]+)\s*\/\s*\$\s*([0-9.]+)/\<close> anchored at the head of the text; the result
  is the pair of captured groups.
\<close>

definition quota_at :: "jsstring \<Rightarrow> (jsstring \<times> jsstring) option" where
  "quota_at s =
     Option.bind (lit [36] s) (\<lambda>r1.
     Option.bind (number_run (spaces r1)) (\<lambda>(m1, r2).
     Option.bind (lit [47] (spaces r2)) (\<lambda>r3.
     Option.bind (lit [36] (spaces r3)) (\<lambda>r4.
     Option.bind (number_run (spaces r4)) (\<lambda>(m2, r5). Some (m1, m2))))))"

fun match_quota :: "jsstring \<Rightarrow> (jsstring \<times> jsstring) option" where
  "match_quota [] = quota_at []"
| "match_quota (c # cs) =
     (case quota_at (c # cs) of Some g \<Rightarrow> Some g | None \<Rightarrow> match_quota cs)"

subsection \<open>The page as the extractor reads it\<close>

text \<open>
  The value cell of a row: its text content and the \<open>title\<close> attributes of its
  \<open>span[title]\<close> descendants.
\<close>

record value_el =
  el_text :: jsstring
  el_span_titles :: "jsstring list"

text \<open>
  A row \<open>div.flex.items-center.justify-between\<close>: the text of its first child and its
  second child, either of which may be missing.
\<close>

record row =
  row_label :: "jsstring option"
  row_value :: "value_el option"

text \<open>
  A child of the subscription grid: the text of \<open>.text-purple-500\<close> and of
  \<open>.font-semibold\<close>, the rows, the text of \<open>.mt-2 span.tabular-nums\<close>, and the
  \<open>aria-valuenow\<close> attribute of the progress bar (\<open>None\<close> when there is no progress bar
  or no such attribute).
\<close>

record sub_card =
  card_purple :: "jsstring option"
  card_semibold :: "jsstring option"
  card_rows :: "row list"
  card_percent :: "jsstring option"
  card_valuenow :: "jsstring option"

text \<open>A child of the totals grid: the text of its label and of its value element.\<close>

record total_card =
  tc_label :: "jsstring option"
  tc_value :: "jsstring option"

text \<open>
  What the extractor reads from the document. The body text and the path are read twice,
  before and after the wait for the content container, and the page may have changed in
  between. \<open>mainFound\<close> says whether \<open>main, #root\<close> appeared within the 20 seconds of
  polling; the two grids are what their \<open>waitFor\<close> returned (\<open>None\<close> after the timeout).
\<close>

record page =
  pageClock :: jsstring
  pathname :: jsstring
  bodyTextEarly :: jsstring
  mainFound :: bool
  pathnameLate :: jsstring
  bodyTextLate :: jsstring
  mainTextContent :: jsstring
  subGrid :: "sub_card list option"
  totalsGrid :: "total_card list option"
  href :: jsstring
  title :: jsstring

subsection \<open>The extracted data\<close>

text \<open>
  \<open>Number(text)\<close> is a floating-point conversion; the number is kept as the text it is
  converted from.
\<close>

datatype jsnum = NumberOf jsstring

text \<open>A value of the \<open>byLabel\<close> map: the text of a cell, or the list of endpoint titles.\<close>

datatype cell = CellText jsstring | CellEndpoints "jsstring list"

text \<open>
  The quota of a subscription: \<open>{remaining, total, currency, raw}\<close> or \<open>{raw}\<close>. The field
  itself is an option, \<open>None\<close> being \<open>null\<close>.
\<close>

datatype quota_value =
    QuotaParsed (quota_remaining: jsnum) (quota_total: jsnum) (quota_currency: jsstring) (quota_raw: jsstring)
  | QuotaRawOnly (quota_raw: jsstring)

record subscription =
  sub_name :: "jsstring option"
  remainingDaysRaw :: "cell option"
  remainingDays :: "jsnum option"
  acquiredAt :: "cell option"
  expiresAt :: "cell option"
  resetStatus :: "cell option"
  endpoints :: cell
  quota :: "quota_value option"
  usedPercentText :: "jsstring option"
  usedPercent :: "jsnum option"

record balance =
  bal_raw :: "jsstring option"
  bal_amount :: "jsnum option"

record snapshot =
  fetchedAt :: jsstring
  url :: jsstring
  snap_title :: jsstring
  snap_balance :: balance
  subscriptions :: "subscription list"
  totals :: "(jsstring \<times> jsstring option) list"

text \<open>
  The value the extractor returns: \<open>{ok: true, ...}\<close> with the snapshot, or
  \<open>{ok: false, error, fetchedAt}\<close>.
\<close>

datatype extract_result =
    ExtractOk snapshot
  | ExtractFail (fail_error: jsstring) (fail_fetchedAt: jsstring)

subsection \<open>Subscription cards\<close>

definition LABEL_ENDPOINTS :: jsstring where
  "LABEL_ENDPOINTS = [0x53EF, 0x7528, 0x7AEF, 0x70B9]"

definition LABEL_REMAINING_DAYS :: jsstring where
  "LABEL_REMAINING_DAYS = [0x5269, 0x4F59, 0x5929, 0x6570]"

definition LABEL_QUOTA :: jsstring where
  "LABEL_QUOTA = [0x5269, 0x4F59, 0x989D, 0x5EA6]"

definition LABEL_ACQUIRED :: jsstring where
  "LABEL_ACQUIRED = [0x83B7, 0x5F97, 0x65F6, 0x95F4]"

definition LABEL_EXPIRES :: jsstring where
  "LABEL_EXPIRES = [0x5230, 0x671F, 0x65F6, 0x95F4]"

definition LABEL_RESET :: jsstring where
  "LABEL_RESET = [0x4ECA, 0x65E5, 0x91CD, 0x7F6E]"

text \<open>
  One turn of the loop over the rows: a row without a label or without a value cell is
  skipped, the endpoints row stores the list of titles, every other row stores the
  normalized text of its value cell. A later row with the same label replaces the entry.
\<close>

definition add_row :: "(jsstring \<rightharpoonup> cell) \<Rightarrow> row \<Rightarrow> (jsstring \<rightharpoonup> cell)" where
  "add_row byLabel r =
     (let label = normalize_text (row_label r)
      in if label = [] then byLabel
         else case row_value r of
                None \<Rightarrow> byLabel
              | Some valueEl \<Rightarrow>
                  if label = LABEL_ENDPOINTS
                  then byLabel(label \<mapsto> CellEndpoints (map (\<lambda>t. normalize_text (Some t)) (el_span_titles valueEl)))
                  else byLabel(label \<mapsto> CellText (normalize_text (Some (el_text valueEl)))))"

definition build_byLabel :: "row list \<Rightarrow> (jsstring \<rightharpoonup> cell)" where
  "build_byLabel rs = foldl add_row Map.empty rs"

text \<open>\<open>String(v)\<close> of a map value; an array of objects prints each as \<open>[object Object]\<close>.\<close>

fun join_commas :: "jsstring list \<Rightarrow> jsstring" where
  "join_commas [] = []"
| "join_commas [x] = x"
| "join_commas (x # y # zs) = x @ [44] @ join_commas (y # zs)"

fun cell_string :: "cell \<Rightarrow> jsstring" where
  "cell_string (CellText t) = t"
| "cell_string (CellEndpoints es) = join_commas (map (\<lambda>e. str ''[object Object]'') es)"

text \<open>\<open>v || null\<close> on a looked-up value: \<open>undefined\<close> and the empty string give \<open>null\<close>.\<close>

fun or_null :: "cell option \<Rightarrow> cell option" where
  "or_null None = None"
| "or_null (Some (CellText t)) = (if t = [] then None else Some (CellText t))"
| "or_null (Some (CellEndpoints es)) = Some (CellEndpoints es)"

definition text_or_null :: "jsstring \<Rightarrow> jsstring option" where
  "text_or_null t = (if t = [] then None else Some t)"

text \<open>The quota field, from \<open>byLabel.get(...)\<close> of the quota label.\<close>

definition parse_quota :: "cell option \<Rightarrow> quota_value option" where
  "parse_quota quotaRaw =
     (case quotaRaw of
        Some (CellText q) \<Rightarrow>
          (case match_quota q of
             Some (m1, m2) \<Rightarrow> Some (QuotaParsed (NumberOf m1) (NumberOf m2) [36] q)
           | None \<Rightarrow> Some (QuotaRawOnly q))
      | _ \<Rightarrow> None)"

text \<open>
  The body of the loop over the children of the subscription grid; \<open>None\<close> is the
  \<open>continue\<close> taken by a card without rows.
\<close>

definition parse_card :: "sub_card \<Rightarrow> subscription option" where
  "parse_card c =
     (let name = (if normalize_text (card_purple c) \<noteq> [] then normalize_text (card_purple c)
                  else normalize_text (card_semibold c))
      in if card_rows c = [] then None
         else
           let byLabel = build_byLabel (card_rows c);
               usedPercentText = normalize_text (card_percent c);
               usedPercent =
                 (case card_valuenow c of
                    Some a \<Rightarrow> Some (NumberOf a)
                  | None \<Rightarrow> if usedPercentText \<noteq> [] then Some (NumberOf (remove1 37 usedPercentText))
                            else None);
               remainingDaysRaw = byLabel LABEL_REMAINING_DAYS;
               remainingDays =
                 (case or_null remainingDaysRaw of
                    Some v \<Rightarrow> Some (NumberOf (filter is_num_unit (normalize_text (Some (cell_string v)))))
                  | None \<Rightarrow> None)
           in Some \<lparr> sub_name = text_or_null name,
                     remainingDaysRaw = or_null remainingDaysRaw,
                     remainingDays = remainingDays,
                     acquiredAt = or_null (byLabel LABEL_ACQUIRED),
                     expiresAt = or_null (byLabel LABEL_EXPIRES),
                     resetStatus = or_null (byLabel LABEL_RESET),
                     endpoints = (case or_null (byLabel LABEL_ENDPOINTS) of
                                    Some v \<Rightarrow> v | None \<Rightarrow> CellEndpoints []),
                     quota = parse_quota (byLabel LABEL_QUOTA),
                     usedPercentText = text_or_null usedPercentText,
                     usedPercent = usedPercent \<rparr>)"

subsection \<open>Totals cards\<close>

text \<open>
  \<open>totals[label] = value || null\<close> on the object \<open>totals\<close>, kept as the list of its own
  properties in insertion order together with a flag that says whether the object still
  has \<open>Object.prototype\<close> as prototype. Assigning to the key \<open>__proto__\<close> runs the
  inherited setter while that prototype is in place: a string is ignored and \<open>null\<close>
  removes the prototype, after which the key is an ordinary one.
\<close>

fun set_key :: "jsstring \<Rightarrow> jsstring option \<Rightarrow> (jsstring \<times> jsstring option) list
                 \<Rightarrow> (jsstring \<times> jsstring option) list" where
  "set_key k v [] = [(k, v)]"
| "set_key k v ((k', v') # kvs) = (if k = k' then (k, v) # kvs else (k', v') # set_key k v kvs)"

definition totals_assign :: "bool \<times> (jsstring \<times> jsstring option) list \<Rightarrow> total_card
                              \<Rightarrow> bool \<times> (jsstring \<times> jsstring option) list" where
  "totals_assign acc tc =
     (let label = normalize_text (tc_label tc);
          val = normalize_text (tc_value tc)
      in if label = [] then acc
         else if label = str ''__proto__'' \<and> fst acc
              then (if text_or_null val = None then (False, snd acc) else acc)
              else (fst acc, set_key label (text_or_null val) (snd acc)))"

definition build_totals :: "total_card list \<Rightarrow> (jsstring \<times> jsstring option) list" where
  "build_totals tcs = snd (foldl totals_assign (True, []) tcs)"

subsection \<open>The extractor\<close>

text \<open>The three phrases of the remote rate limiter, looked for in the lowered body text.\<close>

definition rate_limit_text :: "jsstring \<Rightarrow> bool" where
  "rate_limit_text t =
     (str_includes t (str ''too many requests'')
      \<or> str_includes t [0x67E5, 0x8BE2, 0x8BF7, 0x6C42, 0x8FC7, 0x4E8E, 0x9891, 0x7E41]
      \<or> str_includes t [0x6BCF, 0x5206, 0x949F, 0x6700, 0x591A, 0x33, 0x30, 0x6B21])"

text \<open>The two phrases of the login page.\<close>

definition login_text :: "jsstring \<Rightarrow> bool" where
  "login_text t =
     (str_includes t ([0x4F7F, 0x7528] @ str '' linux do '' @ [0x767B, 0x5F55])
      \<or> str_includes t [0x8FD8, 0x6CA1, 0x6709, 0x8D26, 0x53F7])"

text \<open>
  \<open>extractRightCodesDashboard\<close>, on the page it runs in. No read of this page model
  throws, so the handler that turns an unexpected exception into
  \<open>{ok: false, error: String(err.message)}\<close> has no branch here.
\<close>

definition extractRightCodesDashboard :: "page \<Rightarrow> extract_result" where
  "extractRightCodesDashboard p =
     (let fetchedAt = pageClock p
      in if startsWith (pathname p) (str ''/login'')
         then ExtractFail (str ''auth_required'') fetchedAt
         else if rate_limit_text (toLowerCase (normalize_text (Some (bodyTextEarly p))))
         then ExtractFail (str ''too_many_requests'') fetchedAt
         else if \<not> mainFound p
         then (let bodyTextLate = toLowerCase (normalize_text (Some (bodyTextLate p)))
               in if rate_limit_text bodyTextLate
                  then ExtractFail (str ''too_many_requests'') fetchedAt
                  else if startsWith (pathnameLate p) (str ''/login'') \<or> login_text bodyTextLate
                  then ExtractFail (str ''auth_required'') fetchedAt
                  else ExtractFail (str ''main_not_found'') fetchedAt)
         else
           let mainText = normalize_text (Some (mainTextContent p));
               balanceMatch = match_balance mainText;
               balance = \<lparr> bal_raw = map_option (\<lambda>g. 36 # g) balanceMatch,
                           bal_amount = map_option NumberOf balanceMatch \<rparr>;
               subs = (case subGrid p of
                         None \<Rightarrow> []
                       | Some cards \<Rightarrow> List.map_filter parse_card cards);
               tots = (case totalsGrid p of
                         None \<Rightarrow> []
                       | Some tcs \<Rightarrow> build_totals tcs)
           in if (case bal_raw balance of None \<Rightarrow> True | Some r \<Rightarrow> r = [])
                 \<and> length subs = 0 \<and> length tots = 0
              then ExtractFail (str ''dashboard_data_not_ready'') fetchedAt
              else ExtractOk \<lparr> fetchedAt = fetchedAt,
                               url = href p,
                               snap_title = title p,
                               snap_balance = balance,
                               subscriptions = subs,
                               totals = tots \<rparr>)"

section \<open>The background worker\<close>

subsection \<open>Errors, results and effects\<close>

text \<open>A thrown value: an \<open>Error\<close> object with its message.\<close>

datatype js_error = Error jsstring

text \<open>
  \<open>String(err?.message || err || "")\<close>: the message, or for an empty message the text
  the \<open>Error\<close> object prints as.
\<close>

fun error_text :: "js_error \<Rightarrow> jsstring" where
  "error_text (Error m) = (if m \<noteq> [] then m else str ''Error'')"

datatype error_code =
    rate_limited_local
  | missing_host_permission
  | tab_create_failed
  | extract_failed
  | refresh_exception

text \<open>
  The variable \<open>detail = result?.error || result\<close> of a failed extraction: the error
  text, or else the result itself (\<open>None\<close> being \<open>undefined\<close> or \<open>null\<close>).
\<close>

datatype extract_detail =
    DetailText jsstring
  | DetailResult "extract_result option"

text \<open>
  The \<open>detail\<close> of a Last-Error record: the cooldown text
  \<open>cooldown_until_<ISO time>\<close> (kept as the time), the detail of a failed extraction,
  or the text of a caught exception.
\<close>

datatype detail =
    CooldownUntil int
  | ExtractDetail extract_detail
  | ExceptionText jsstring

text \<open>
  The Last-Error record \<open>{at, reason, code, detail}\<close>; \<open>at\<close> is the clock reading that
  \<open>toISOString\<close> prints.
\<close>

record last_error =
  err_at :: int
  err_reason :: jsstring
  err_code :: error_code
  err_detail :: "detail option"

text \<open>What \<open>refreshDashboardData\<close> returns: \<open>{ok: true, data}\<close> or \<open>{ok: false, error}\<close>.\<close>

datatype refresh_result = RefreshOk "extract_result option" | RefreshFail last_error

text \<open>
  Everything the worker does to the outside, and its assignments to
  \<open>nextAllowedRefreshAt\<close> (with the value before and the value after), in the order in
  which they happen.
\<close>

datatype effect =
    AssignNextAllowed int int
  | PermissionsContains
  | StorageSyncGet
  | TabsQuery
  | TabsCreate
  | InstallRule int
  | WaitForTabUrl int
  | Sleep nat
  | TabsGet int
  | ExecuteScript int
  | ClearRule
  | TabsRemove int
  | SetLastError last_error
  | SetDataClearError "extract_result option"

text \<open>A browser tab; \<open>tab_id\<close> is \<open>None\<close> for a tab without an id.\<close>

record tab =
  tab_id :: "int option"

text \<open>
  The answers of the browser to one run of the worker: the three clock readings
  (\<open>Date.now()\<close> on entry, \<open>Date.now()\<close> when a remote rate limit is seen, and the
  \<open>new Date()\<close> of the error record), and the outcome of each call of the extension
  API, \<open>Inl\<close> being a rejected promise. \<open>wait_resolves\<close> says whether the tab reached the
  dashboard URL before the timeout of \<open>waitForTabUrl\<close>. The answers to \<open>tabs.get\<close>
  and \<open>scripting.executeScript\<close> are indexed by the number of injection attempts made
  before. Writes to \<open>chrome.storage.local\<close> are taken to succeed. The source swallows
  what installing the rule, clearing it and closing the tab throw, so their outcomes are
  no part of the answers.
\<close>

record env =
  clock_start :: int
  clock_remote :: int
  clock_error :: int
  permissions_contains :: "js_error + bool"
  storage_sync_get :: "js_error + jsval option"
  tabs_query :: "js_error + tab list"
  tabs_create :: "js_error + tab option"
  wait_resolves :: bool
  tabs_get :: "nat \<Rightarrow> js_error + tab option"
  execute_script :: "nat \<Rightarrow> js_error + extract_result option"

text \<open>
  The state of the worker that a refresh reads and writes: the module variable
  \<open>nextAllowedRefreshAt\<close>, the number of injection attempts made, and the effects so far.
\<close>

record sw =
  nextAllowedRefreshAt :: int
  attempts :: nat
  trace :: "effect list"

definition emit :: "effect list \<Rightarrow> sw \<Rightarrow> sw" where
  "emit es s = s\<lparr>trace := trace s @ es\<rparr>"

definition MIN_REFRESH_GAP_MS :: int where
  "MIN_REFRESH_GAP_MS = 2500"

definition REMOTE_RATE_LIMIT_COOLDOWN_MS :: int where
  "REMOTE_RATE_LIMIT_COOLDOWN_MS = 65000"

subsection \<open>The transient-injection retry driver\<close>

text \<open>
  The \<open>try\<close> body of one attempt: \<open>tabs.get\<close>, the check of the tab, the injection, and
  \<open>injected?.[0]?.result\<close>. The outcome is the returned result or the thrown error,
  with the calls made.
\<close>

definition inject_once :: "env \<Rightarrow> int \<Rightarrow> nat \<Rightarrow> (js_error + extract_result option) \<times> effect list" where
  "inject_once e tabId k =
     (case tabs_get e k of
        Inl err \<Rightarrow> (Inl err, [TabsGet tabId])
      | Inr None \<Rightarrow> (Inl (Error (str ''tab_not_found'')), [TabsGet tabId])
      | Inr (Some t) \<Rightarrow>
          (case execute_script e k of
             Inl err \<Rightarrow> (Inl err, [TabsGet tabId, ExecuteScript tabId])
           | Inr r \<Rightarrow> (Inr r, [TabsGet tabId, ExecuteScript tabId])))"

text \<open>The four signatures of a frame lost under the injection.\<close>

definition retryable :: "js_error \<Rightarrow> bool" where
  "retryable err =
     (let msg = error_text err
      in str_includes msg (str ''Frame with ID 0 was removed'')
         \<or> str_includes msg (str ''No frame with id'')
         \<or> str_includes msg (str ''The tab was closed'')
         \<or> str_includes msg (str ''Cannot access contents of url''))"

text \<open>
  The loop of \<open>executeExtractWithRetry\<close> from the attempt number \<open>attempt\<close> on, with the
  variable \<open>lastErr\<close>; leaving the loop throws \<open>lastErr || new Error("extract_retry_failed")\<close>.
\<close>

function extract_loop ::
  "env \<Rightarrow> int \<Rightarrow> nat \<Rightarrow> nat \<Rightarrow> js_error option \<Rightarrow> sw \<Rightarrow> (js_error + extract_result option) \<times> sw" where
  "extract_loop e tabId maxAttempts attempt lastErr s =
     (if attempt \<le> maxAttempts
      then
        (let (outcome, calls) = inject_once e tabId (attempts s);
             s1 = emit calls (s\<lparr>attempts := attempts s + 1\<rparr>)
         in case outcome of
              Inr r \<Rightarrow> (Inr r, s1)
            | Inl err \<Rightarrow>
                if \<not> retryable err \<or> attempt = maxAttempts
                then (Inl err, s1)
                else extract_loop e tabId maxAttempts (attempt + 1) (Some err)
                       (emit [Sleep (220 * attempt)] s1))
      else (Inl (case lastErr of Some err \<Rightarrow> err | None \<Rightarrow> Error (str ''extract_retry_failed'')), s))"
  by pat_completeness auto
termination
  by (relation "measure (\<lambda>(e, tabId, maxAttempts, attempt, lastErr, s). maxAttempts + 1 - attempt)") auto

definition executeExtractWithRetry ::
  "env \<Rightarrow> int \<Rightarrow> nat \<Rightarrow> sw \<Rightarrow> (js_error + extract_result option) \<times> sw" where
  "executeExtractWithRetry e tabId maxAttempts s = extract_loop e tabId maxAttempts 1 None s"

subsection \<open>The result-level retry driver\<close>

text \<open>\<open>result?.ok\<close>.\<close>

fun result_ok :: "extract_result option \<Rightarrow> bool" where
  "result_ok (Some (ExtractOk d)) = True"
| "result_ok r = False"

text \<open>\<open>String(result?.error || "")\<close>.\<close>

fun result_error_text :: "extract_result option \<Rightarrow> jsstring" where
  "result_error_text (Some (ExtractFail err t)) = err"
| "result_error_text r = []"

definition retryableResult :: "extract_result option \<Rightarrow> bool" where
  "retryableResult r =
     (let detail = toLowerCase (result_error_text r)
      in str_includes detail (str ''main_not_found'')
         \<or> str_includes detail (str ''dashboard_data_not_ready''))"

text \<open>
  The loop of \<open>extractDashboardWithResultRetry\<close> from the attempt number \<open>attempt\<close> on,
  with the variable \<open>lastResult\<close>. Each turn calls \<open>executeExtractWithRetry(tabId)\<close> with
  its default of four attempts; what that call throws leaves this function too.
\<close>

function result_loop ::
  "env \<Rightarrow> int \<Rightarrow> nat \<Rightarrow> nat \<Rightarrow> extract_result option \<Rightarrow> sw \<Rightarrow> (js_error + extract_result option) \<times> sw" where
  "result_loop e tabId maxAttempts attempt lastResult s =
     (if attempt \<le> maxAttempts
      then
        (case executeExtractWithRetry e tabId 4 s of
           (Inl err, s1) \<Rightarrow> (Inl err, s1)
         | (Inr r, s1) \<Rightarrow>
             if result_ok r then (Inr r, s1)
             else if \<not> retryableResult r \<or> attempt = maxAttempts then (Inr r, s1)
             else result_loop e tabId maxAttempts (attempt + 1) r
                    (emit [Sleep (300 * attempt)] s1))
      else (Inr lastResult, s))"
  by pat_completeness auto
termination
  by (relation "measure (\<lambda>(e, tabId, maxAttempts, attempt, lastResult, s). maxAttempts + 1 - attempt)") auto

definition extractDashboardWithResultRetry ::
  "env \<Rightarrow> int \<Rightarrow> nat \<Rightarrow> sw \<Rightarrow> (js_error + extract_result option) \<times> sw" where
  "extractDashboardWithResultRetry e tabId maxAttempts s = result_loop e tabId maxAttempts 1 None s"

subsection \<open>The refresh operation\<close>

text \<open>\<open>findExistingDashboardTab\<close>: the first tab of the query whose id is a number.\<close>

definition findExistingDashboardTab :: "env \<Rightarrow> js_error + tab option" where
  "findExistingDashboardTab e =
     (case tabs_query e of
        Inl err \<Rightarrow> Inl err
      | Inr tabs \<Rightarrow> Inr (find (\<lambda>t. tab_id t \<noteq> None) tabs))"

text \<open>\<open>tab?.id\<close> where it is truthy: a number other than zero.\<close>

definition usable_id :: "tab option \<Rightarrow> int option" where
  "usable_id t =
     (case t of
        None \<Rightarrow> None
      | Some tb \<Rightarrow> (case tab_id tb of None \<Rightarrow> None | Some n \<Rightarrow> if n = 0 then None else Some n))"

text \<open>\<open>result?.error || result\<close>.\<close>

fun detail_of :: "extract_result option \<Rightarrow> extract_detail" where
  "detail_of (Some (ExtractFail err t)) =
     (if err \<noteq> [] then DetailText err else DetailResult (Some (ExtractFail err t)))"
| "detail_of r = DetailResult r"

text \<open>\<open>String(detail || "")\<close>.\<close>

fun detail_string :: "extract_detail \<Rightarrow> jsstring" where
  "detail_string (DetailText t) = t"
| "detail_string (DetailResult None) = []"
| "detail_string (DetailResult (Some r)) = str ''[object Object]''"

text \<open>The test for the remote limiter on the lowered detail text.\<close>

definition remote_rate_limited :: "extract_detail \<Rightarrow> bool" where
  "remote_rate_limited d =
     (let detailText = toLowerCase (detail_string d)
      in str_includes detailText (str ''too_many_requests'')
         \<or> str_includes detailText (str ''too many requests''))"

text \<open>Building an error record, persisting it and returning \<open>{ok: false, error}\<close>.\<close>

definition fail_with :: "env \<Rightarrow> jsstring \<Rightarrow> error_code \<Rightarrow> detail option \<Rightarrow> sw \<Rightarrow> refresh_result \<times> sw" where
  "fail_with e reason c d s =
     (let error = \<lparr> err_at = clock_error e, err_reason = reason, err_code = c, err_detail = d \<rparr>
      in (RefreshFail error, emit [SetLastError error] s))"

text \<open>The \<open>catch (err)\<close> handler of the refresh.\<close>

definition catch_block :: "env \<Rightarrow> jsstring \<Rightarrow> js_error \<Rightarrow> sw \<Rightarrow> refresh_result \<times> sw" where
  "catch_block e reason err s =
     fail_with e reason refresh_exception (Some (ExceptionText (error_text err))) s"

text \<open>
  The extension of the cooldown:
  \<open>nextAllowedRefreshAt = Math.max(nextAllowedRefreshAt, Date.now() + REMOTE_RATE_LIMIT_COOLDOWN_MS)\<close>.
\<close>

definition extend_cooldown :: "env \<Rightarrow> sw \<Rightarrow> sw" where
  "extend_cooldown e s =
     (let v = max (nextAllowedRefreshAt s) (clock_remote e + REMOTE_RATE_LIMIT_COOLDOWN_MS)
      in emit [AssignNextAllowed (nextAllowedRefreshAt s) v] (s\<lparr>nextAllowedRefreshAt := v\<rparr>))"

text \<open>
  The \<open>try\<close> block with its handler: the best-effort rule for a temporary tab, the wait
  for the dashboard URL (a timeout rejects with \<open>timeout_waiting_for_tab_url\<close>), the
  settle delay, the extraction, and the two ways out. Everything thrown in here ends in
  the handler, so the block always yields a value.
\<close>

definition try_block :: "env \<Rightarrow> jsstring \<Rightarrow> int \<Rightarrow> bool \<Rightarrow> sw \<Rightarrow> refresh_result \<times> sw" where
  "try_block e reason tabId createdTempTab s =
     (let s1 = (if createdTempTab then emit [InstallRule tabId] s else s);
          s2 = emit [WaitForTabUrl tabId] s1
      in if \<not> wait_resolves e
         then catch_block e reason (Error (str ''timeout_waiting_for_tab_url'')) s2
         else
           (case extractDashboardWithResultRetry e tabId 3 (emit [Sleep 120] s2) of
              (Inl err, s3) \<Rightarrow> catch_block e reason err s3
            | (Inr result, s3) \<Rightarrow>
                if \<not> result_ok result
                then
                  (let detail = detail_of result;
                       s4 = (if remote_rate_limited detail then extend_cooldown e s3 else s3)
                   in fail_with e reason extract_failed (Some (ExtractDetail detail)) s4)
                else (RefreshOk result, emit [SetDataClearError result] s3)))"

text \<open>The \<open>finally\<close> block: both steps are best effort.\<close>

definition finally_block :: "bool \<Rightarrow> jsobject \<Rightarrow> int \<Rightarrow> sw \<Rightarrow> sw" where
  "finally_block createdTempTab prefs tabId s =
     (let s1 = (if createdTempTab then emit [ClearRule] s else s)
      in if createdTempTab \<and> truthy (get_prop prefs ''closeTempTab'')
         then emit [TabsRemove tabId] s1
         else s1)"

text \<open>
  Lines 186 to 192: the existing tab, or a new one. The result is the tab, the flag
  \<open>createdTempTab\<close> and the state, or what \<open>tabs.query\<close> or \<open>tabs.create\<close> threw.
\<close>

definition acquire_tab :: "env \<Rightarrow> sw \<Rightarrow> (js_error + tab option \<times> bool) \<times> sw" where
  "acquire_tab e s =
     (case findExistingDashboardTab e of
        Inl err \<Rightarrow> (Inl err, emit [TabsQuery] s)
      | Inr (Some t) \<Rightarrow> (Inr (Some t, False), emit [TabsQuery] s)
      | Inr None \<Rightarrow>
          (case tabs_create e of
             Inl err \<Rightarrow> (Inl err, emit [TabsQuery, TabsCreate] s)
           | Inr t \<Rightarrow> (Inr (t, True), emit [TabsQuery, TabsCreate] s)))"

text \<open>
  The error record of the local rate limit, with the detail
  \<open>cooldown_until_<nextAllowedRefreshAt as ISO time>\<close>.
\<close>

definition limited_error :: "env \<Rightarrow> jsstring \<Rightarrow> sw \<Rightarrow> last_error" where
  "limited_error e reason s =
     \<lparr> err_at = clock_error e, err_reason = reason, err_code = rate_limited_local,
       err_detail = Some (CooldownUntil (nextAllowedRefreshAt s)) \<rparr>"

text \<open>
  The first statements of \<open>refreshDashboardData\<close>, which run before its first \<open>await\<close>
  gives control back: the local rate limit. \<open>Some error\<close> is the rate-limited way out,
  with the error record handed to the storage; \<open>None\<close> means the gap was set and the
  operation goes on.
\<close>

definition refresh_enter :: "env \<Rightarrow> jsstring \<Rightarrow> sw \<Rightarrow> last_error option \<times> sw" where
  "refresh_enter e reason s =
     (let now = clock_start e
      in if now < nextAllowedRefreshAt s
         then
           (let error = limited_error e reason s
            in (Some error, emit [SetLastError error] s))
         else
           (None, emit [AssignNextAllowed (nextAllowedRefreshAt s) (now + MIN_REFRESH_GAP_MS)]
                    (s\<lparr>nextAllowedRefreshAt := now + MIN_REFRESH_GAP_MS\<rparr>)))"

text \<open>
  The rest of \<open>refreshDashboardData\<close>, from the permission check on. \<open>Inl\<close> is an
  exception that leaves the function: the permission check, the read of the preferences
  and the acquisition of the tab stand before the \<open>try\<close>.
\<close>

definition refresh_continue :: "env \<Rightarrow> jsstring \<Rightarrow> sw \<Rightarrow> (js_error + refresh_result) \<times> sw" where
  "refresh_continue e reason s =
     (case permissions_contains e of
        Inl err \<Rightarrow> (Inl err, emit [PermissionsContains] s)
      | Inr hasPerm \<Rightarrow>
          if \<not> hasPerm
          then (case fail_with e reason missing_host_permission None (emit [PermissionsContains] s) of
                  (r, s1) \<Rightarrow> (Inr r, s1))
          else
            (case storage_sync_get e of
               Inl err \<Rightarrow> (Inl err, emit [PermissionsContains, StorageSyncGet] s)
             | Inr kept \<Rightarrow>
                 (let prefs = getPrefs kept
                  in case acquire_tab e (emit [PermissionsContains, StorageSyncGet] s) of
                       (Inl err, s1) \<Rightarrow> (Inl err, s1)
                     | (Inr (tab, createdTempTab), s1) \<Rightarrow>
                         (case usable_id tab of
                            None \<Rightarrow>
                              (case fail_with e reason tab_create_failed None s1 of
                                 (r, s2) \<Rightarrow> (Inr r, s2))
                          | Some tabId \<Rightarrow>
                              (case try_block e reason tabId createdTempTab s1 of
                                 (r, s2) \<Rightarrow> (Inr r, finally_block createdTempTab prefs tabId s2))))))"

definition refreshDashboardData :: "env \<Rightarrow> jsstring \<Rightarrow> sw \<Rightarrow> (js_error + refresh_result) \<times> sw" where
  "refreshDashboardData e reason s =
     (case refresh_enter e reason s of
        (Some error, s1) \<Rightarrow> (Inr (RefreshFail error), s1)
      | (None, s1) \<Rightarrow> refresh_continue e reason s1)"

declare extract_loop.simps [simp del]
declare result_loop.simps [simp del]

subsection \<open>Notions used to state the properties of the retry drivers\<close>

text \<open>
  The injection attempt with index \<open>k\<close> throws an error that carries one of the four
  transient signatures.
\<close>

definition throws_retryable :: "env \<Rightarrow> int \<Rightarrow> nat \<Rightarrow> bool" where
  "throws_retryable e tabId k =
     (case fst (inject_once e tabId k) of Inl err \<Rightarrow> retryable err | Inr r \<Rightarrow> False)"

text \<open>A result after which the result-level driver goes round again: not ok and not ready.\<close>

definition retried_result :: "extract_result option \<Rightarrow> bool" where
  "retried_result r = (\<not> result_ok r \<and> retryableResult r)"

subsection \<open>Notions used to state the properties of the refresh operation\<close>

text \<open>The effects of the retry drivers: the two calls of an injection attempt and the sleeps.\<close>

fun injection_effect :: "effect \<Rightarrow> bool" where
  "injection_effect (TabsGet t) = True"
| "injection_effect (ExecuteScript t) = True"
| "injection_effect (Sleep ms) = True"
| "injection_effect x = False"

text \<open>An effect that, if it is an assignment to \<open>nextAllowedRefreshAt\<close>, does not lower it.\<close>

fun raising_assignment :: "effect \<Rightarrow> bool" where
  "raising_assignment (AssignNextAllowed old new) = (old \<le> new)"
| "raising_assignment x = True"

text \<open>A write of a Last-Error record.\<close>

fun is_error_write :: "effect \<Rightarrow> bool" where
  "is_error_write (SetLastError err) = True"
| "is_error_write x = False"

text \<open>
  The effects hold exactly one write of a Last-Error record, the returned one, when the
  result is a failure, and none when it is a success.
\<close>

definition writes_one_error :: "refresh_result \<Rightarrow> effect list \<Rightarrow> bool" where
  "writes_one_error r es =
     (case r of
        RefreshFail err \<Rightarrow> filter is_error_write es = [SetLastError err]
      | RefreshOk d \<Rightarrow> filter is_error_write es = [])"

text \<open>The same for an outcome that may be a thrown error, which comes with no write.\<close>

definition outcome_writes :: "js_error + refresh_result \<Rightarrow> effect list \<Rightarrow> bool" where
  "outcome_writes out es =
     (case out of
        Inl err \<Rightarrow> filter is_error_write es = []
      | Inr r \<Rightarrow> writes_one_error r es)"

subsection \<open>Concrete runs\<close>

definition sw_initial :: sw where
  "sw_initial = \<lparr> nextAllowedRefreshAt = 0, attempts = 0, trace = [] \<rparr>"

text \<open>
  An existing dashboard tab with id 7 whose frame is lost under the first two injections;
  the third injection finds the login page.
\<close>

definition env_frame_lost_twice :: env where
  "env_frame_lost_twice =
     \<lparr> clock_start = 0, clock_remote = 0, clock_error = 0,
       permissions_contains = Inr True,
       storage_sync_get = Inr None,
       tabs_query = Inr [\<lparr> tab_id = Some 7 \<rparr>],
       tabs_create = Inr None,
       wait_resolves = True,
       tabs_get = (\<lambda>k. Inr (Some \<lparr> tab_id = Some 7 \<rparr>)),
       execute_script = (\<lambda>k. if k < 2 then Inl (Error (str ''No frame with id 0.''))
                              else Inr (Some (ExtractFail (str ''auth_required'') []))) \<rparr>"

text \<open>An existing dashboard tab with id 7 whose page never gets its data.\<close>

definition env_never_ready :: env where
  "env_never_ready =
     \<lparr> clock_start = 0, clock_remote = 0, clock_error = 0,
       permissions_contains = Inr True,
       storage_sync_get = Inr None,
       tabs_query = Inr [\<lparr> tab_id = Some 7 \<rparr>],
       tabs_create = Inr None,
       wait_resolves = True,
       tabs_get = (\<lambda>k. Inr (Some \<lparr> tab_id = Some 7 \<rparr>)),
       execute_script = (\<lambda>k. Inr (Some (ExtractFail (str ''dashboard_data_not_ready'') []))) \<rparr>"

text \<open>
  An existing dashboard tab with id 7 whose page shows the remote limiter; the clock
  reads 1000 when the result arrives.
\<close>

definition env_remote_limited :: env where
  "env_remote_limited =
     \<lparr> clock_start = 0, clock_remote = 1000, clock_error = 1001,
       permissions_contains = Inr True,
       storage_sync_get = Inr None,
       tabs_query = Inr [\<lparr> tab_id = Some 7 \<rparr>],
       tabs_create = Inr None,
       wait_resolves = True,
       tabs_get = (\<lambda>k. Inr (Some \<lparr> tab_id = Some 7 \<rparr>)),
       execute_script = (\<lambda>k. Inr (Some (ExtractFail (str ''too_many_requests'') []))) \<rparr>"

text \<open>
  No dashboard tab is open and the browser rejects the creation of one, as it does while
  the user drags a tab.
\<close>

definition env_create_rejects :: env where
  "env_create_rejects =
     \<lparr> clock_start = 0, clock_remote = 0, clock_error = 0,
       permissions_contains = Inr True,
       storage_sync_get = Inr None,
       tabs_query = Inr [],
       tabs_create = Inl (Error (str ''Tabs cannot be edited right now (user may be dragging a tab).'')),
       wait_resolves = True,
       tabs_get = (\<lambda>k. Inr None),
       execute_script = (\<lambda>k. Inr None) \<rparr>"

text \<open>
  A dashboard page whose main content shows the balance \<open>$12.50\<close> and which has neither
  the subscription grid nor the totals grid.
\<close>

definition page_balance_only :: page where
  "page_balance_only =
     \<lparr> pageClock = str ''2025-01-01T00:00:00.000Z'',
       pathname = str ''/dashboard'',
       bodyTextEarly = str ''Dashboard '' @ [0x4F59, 0x989D] @ str '': $12.50'',
       mainFound = True,
       pathnameLate = str ''/dashboard'',
       bodyTextLate = str ''Dashboard '' @ [0x4F59, 0x989D] @ str '': $12.50'',
       mainTextContent = str ''Dashboard '' @ [0x4F59, 0x989D] @ str '': $12.50'',
       subGrid = None,
       totalsGrid = None,
       href = str ''https://www.right.codes/dashboard'',
       title = str ''Right Codes'' \<rparr>"

text \<open>A subscription card with one row, the expiry date, and no quota row.\<close>

definition card_without_quota :: sub_card where
  "card_without_quota =
     \<lparr> card_purple = Some (str ''Pro''),
       card_semibold = None,
       card_rows = [\<lparr> row_label = Some LABEL_EXPIRES,
                      row_value = Some \<lparr> el_text = str ''2025-02-01'', el_span_titles = [] \<rparr> \<rparr>],
       card_percent = None,
       card_valuenow = None \<rparr>"

text \<open>A subscription card whose quota row reads "unlimited" (U+65E0 U+9650 U+5236).\<close>

definition card_unlimited_quota :: sub_card where
  "card_unlimited_quota =
     \<lparr> card_purple = Some (str ''Max''),
       card_semibold = None,
       card_rows = [\<lparr> row_label = Some LABEL_QUOTA,
                      row_value = Some \<lparr> el_text = [0x65E0, 0x9650, 0x5236], el_span_titles = [] \<rparr> \<rparr>],
       card_percent = None,
       card_valuenow = None \<rparr>"


text \<open>The same page with a subscription grid that holds the card without a quota row.\<close>

definition page_with_card :: page where
  "page_with_card = page_balance_only\<lparr> subGrid := Some [card_without_quota] \<rparr>"

section \<open>The listeners and the in-flight marker\<close>

text \<open>
  The worker runs on one event loop. A call of \<open>refreshDashboardData\<close> runs its first
  statements (\<open>refresh_enter\<close>) at once, inside the listener that made the call; the rest
  (\<open>refresh_continue\<close>) runs behind \<open>await\<close>s, after the listener has returned, and other
  listeners run in between. The model takes the rest of an operation as one step, at the
  moment its promise settles.

  An operation that was started and has not settled: its number, its reason, the answers
  of the browser to it, the outcome of its first statements (\<open>Some error\<close> when the local
  rate limit stopped it), and whether its promise carries the \<open>finally\<close> callback that
  clears the marker, which is the case when the message listener started it.
\<close>

record operation =
  op_id :: nat
  op_reason :: jsstring
  op_env :: env
  op_limited :: "last_error option"
  op_has_finally :: bool

text \<open>
  The worker between two events: the module variable \<open>inFlightRefreshPromise\<close> (the number
  of the operation whose promise it holds), the state that the refresh code reads and
  writes, the number of operations started, the operations not yet settled, the requests
  that await a promise (request and operation), and the calls of \<open>sendResponse\<close> made.
\<close>

record worker =
  inFlightRefreshPromise :: "nat option"
  refresh_state :: sw
  started :: nat
  running :: "operation list"
  waiting :: "(nat \<times> nat) list"
  responses :: "(nat \<times> refresh_result) list"

text \<open>
  The events: a message \<open>{type: "rcdm_refresh", reason}\<close> of a request, the alarm
  \<open>rcdm_auto_refresh\<close>, each with the answers the browser will give to the refresh it may
  start, and the settling of an operation.
\<close>

datatype event =
    OnMessage nat "jsstring option" env
  | OnAlarm env
  | Settle nat

text \<open>The call \<open>refreshDashboardData({ reason })\<close> as far as it runs inside the listener.\<close>

definition start_refresh :: "env \<Rightarrow> jsstring \<Rightarrow> bool \<Rightarrow> worker \<Rightarrow> worker" where
  "start_refresh e reason with_finally w =
     (case refresh_enter e reason (refresh_state w) of
        (limited, s1) \<Rightarrow>
          w\<lparr> refresh_state := s1,
             started := started w + 1,
             running := running w
               @ [\<lparr> op_id = started w, op_reason = reason, op_env = e,
                     op_limited = limited, op_has_finally = with_finally \<rparr>] \<rparr>)"

text \<open>\<open>message.reason || "manual"\<close>.\<close>

definition message_reason :: "jsstring option \<Rightarrow> jsstring" where
  "message_reason r = (case r of None \<Rightarrow> str ''manual'' | Some t \<Rightarrow> if t = [] then str ''manual'' else t)"

text \<open>
  The message listener: a refresh is started only when the marker is empty, and the
  marker then holds its promise; the request awaits whatever promise the marker holds.
\<close>

definition on_message :: "nat \<Rightarrow> jsstring option \<Rightarrow> env \<Rightarrow> worker \<Rightarrow> worker" where
  "on_message request reason e w =
     (case inFlightRefreshPromise w of
        None \<Rightarrow>
          (let w1 = start_refresh e (message_reason reason) True w
           in w1\<lparr> inFlightRefreshPromise := Some (started w),
                  waiting := waiting w1 @ [(request, started w)] \<rparr>)
      | Some i \<Rightarrow> w\<lparr> waiting := waiting w @ [(request, i)] \<rparr>)"

text \<open>
  The alarm listener: \<open>void refreshDashboardData({ reason: "alarm" })\<close>. It neither reads
  nor writes the marker.
\<close>

definition on_alarm :: "env \<Rightarrow> worker \<Rightarrow> worker" where
  "on_alarm e w = start_refresh e (str ''alarm'') False w"

text \<open>
  The settling of the operation \<open>i\<close>: the rest of its body runs, the \<open>finally\<close> callback
  (if it has one) clears the marker, and every request that awaits its promise calls
  \<open>sendResponse\<close> with the result. A request that awaits a rejected promise never
  responds.
\<close>

definition settle :: "nat \<Rightarrow> worker \<Rightarrow> worker" where
  "settle i w =
     (case find (\<lambda>op. op_id op = i) (running w) of
        None \<Rightarrow> w
      | Some op \<Rightarrow>
          (case (case op_limited op of
                   Some error \<Rightarrow> (Inr (RefreshFail error), refresh_state w)
                 | None \<Rightarrow> refresh_continue (op_env op) (op_reason op) (refresh_state w)) of
             (out, s1) \<Rightarrow>
               w\<lparr> refresh_state := s1,
                  running := filter (\<lambda>op. op_id op \<noteq> i) (running w),
                  inFlightRefreshPromise :=
                    (if op_has_finally op then None else inFlightRefreshPromise w),
                  waiting := filter (\<lambda>(request, j). j \<noteq> i) (waiting w),
                  responses := responses w
                    @ (case out of
                         Inl err \<Rightarrow> []
                       | Inr r \<Rightarrow> map (\<lambda>(request, j). (request, r))
                                    (filter (\<lambda>(request, j). j = i) (waiting w))) \<rparr>))"

fun step :: "worker \<Rightarrow> event \<Rightarrow> worker" where
  "step w (OnMessage request reason e) = on_message request reason e w"
| "step w (OnAlarm e) = on_alarm e w"
| "step w (Settle i) = settle i w"

definition run :: "event list \<Rightarrow> worker \<Rightarrow> worker" where
  "run evs w = foldl step w evs"

definition worker_initial :: worker where
  "worker_initial =
     \<lparr> inFlightRefreshPromise = None, refresh_state = sw_initial, started = 0,
       running = [], waiting = [], responses = [] \<rparr>"

text \<open>
  The operations in flight that passed the local rate limit: each of them goes on to the
  permission check and the acquisition of a tab.
\<close>

definition provisioning :: "worker \<Rightarrow> operation list" where
  "provisioning w = filter (\<lambda>op. op_limited op = None) (running w)"

fun is_alarm :: "event \<Rightarrow> bool" where
  "is_alarm (OnAlarm e) = True"
| "is_alarm ev = False"

text \<open>
  The marker describes the operations in flight: it is empty when none is running and
  no request waits, and otherwise holds the one running operation, which every waiting
  request awaits.
\<close>

definition single_flight :: "worker \<Rightarrow> bool" where
  "single_flight w =
     (case inFlightRefreshPromise w of
        None \<Rightarrow> running w = [] \<and> waiting w = []
      | Some i \<Rightarrow> map op_id (running w) = [i] \<and> list_all op_has_finally (running w)
                  \<and> list_all (\<lambda>(request, j). j = i) (waiting w))"

text \<open>
  No dashboard tab is open; the browser creates tab 7, whose page is the login page. The
  clock reads \<open>t\<close> throughout.
\<close>

definition env_new_tab :: "int \<Rightarrow> env" where
  "env_new_tab t =
     \<lparr> clock_start = t, clock_remote = t, clock_error = t,
       permissions_contains = Inr True,
       storage_sync_get = Inr None,
       tabs_query = Inr [],
       tabs_create = Inr (Some \<lparr> tab_id = Some 7 \<rparr>),
       wait_resolves = True,
       tabs_get = (\<lambda>k. Inr (Some \<lparr> tab_id = Some 7 \<rparr>)),
       execute_script = (\<lambda>k. Inr (Some (ExtractFail (str ''auth_required'') []))) \<rparr>"

section \<open>Properties of the in-flight marker\<close>

lemma start_refresh_fields:
  "inFlightRefreshPromise (start_refresh e reason f w) = inFlightRefreshPromise w"
  "waiting (start_refresh e reason f w) = waiting w"
  "responses (start_refresh e reason f w) = responses w"
  "started (start_refresh e reason f w) = started w + 1"
  "map op_id (running (start_refresh e reason f w)) = map op_id (running w) @ [started w]"
  "list_all op_has_finally (running (start_refresh e reason f w))
     = (list_all op_has_finally (running w) \<and> f)"
  by (simp_all add: start_refresh_def split: prod.splits)

lemma single_flight_message:
  assumes "single_flight w"
  shows "single_flight (on_message request reason e w)"
proof (cases "inFlightRefreshPromise w")
  case None
  with assms have "running w = []" "waiting w = []"
    by (simp_all add: single_flight_def)
  with None show ?thesis
    by (simp add: single_flight_def on_message_def Let_def start_refresh_fields)
next
  case (Some i)
  with assms show ?thesis
    by (simp add: single_flight_def on_message_def)
qed

lemma single_flight_settle:
  assumes "single_flight w"
  shows "single_flight (settle i w)"
proof (cases "find (\<lambda>op. op_id op = i) (running w)")
  case None
  with assms show ?thesis by (simp add: settle_def)
next
  case (Some op)
  then have "running w \<noteq> []" by auto
  with assms obtain j where j: "inFlightRefreshPromise w = Some j"
    and r: "map op_id (running w) = [j]" "list_all op_has_finally (running w)"
    and wt: "list_all (\<lambda>(request, k). k = j) (waiting w)"
    by (cases "inFlightRefreshPromise w") (auto simp: single_flight_def)
  from r obtain op0 where op0: "running w = [op0]" "op_id op0 = j" "op_has_finally op0"
    by (cases "running w") auto
  with Some have eq: "op = op0" "i = j"
    by (auto split: if_splits)
  have "filter (\<lambda>(request, k). k \<noteq> j) (waiting w) = []"
    using wt by (auto simp: filter_empty_conv list_all_iff)
  with Some eq op0 show ?thesis
    by (auto simp: settle_def single_flight_def split: prod.splits)
qed

lemma single_flight_step:
  "single_flight w \<Longrightarrow> \<not> is_alarm ev \<Longrightarrow> single_flight (step w ev)"
  by (cases ev) (simp_all add: single_flight_message single_flight_settle)

lemma single_flight_run:
  "single_flight w \<Longrightarrow> \<not> list_ex is_alarm evs \<Longrightarrow> single_flight (run evs w)"
  unfolding run_def
  by (induction evs arbitrary: w) (simp_all add: single_flight_step)

lemma single_flight_initial: "single_flight worker_initial"
  by (simp add: single_flight_def worker_initial_def)

text \<open>
  The part of C2 that holds: as long as only messages trigger refreshes, at most one
  operation is in flight, the marker holds it, and when it settles the marker is cleared
  and every waiting request is answered with the one result
  (\<open>settle_answers_all_waiting\<close>).
\<close>

lemma messages_alone_share_one_refresh:
  assumes "\<not> list_ex is_alarm evs"
  shows "length (running (run evs worker_initial)) \<le> 1"
proof -
  from single_flight_run[OF single_flight_initial assms]
  show ?thesis
    by (auto simp: single_flight_def split: option.splits dest: arg_cong[where f = length])
qed

lemma settle_answers_all_waiting:
  assumes "single_flight w" "inFlightRefreshPromise w = Some i"
  shows "inFlightRefreshPromise (settle i w) = None
         \<and> (\<exists>out :: js_error + refresh_result. responses (settle i w)
                = responses w @ (case out of Inl err \<Rightarrow> []
                                  | Inr r \<Rightarrow> map (\<lambda>(request, j). (request, r)) (waiting w)))"
proof -
  from assms have r: "map op_id (running w) = [i]" "list_all op_has_finally (running w)"
    and wt: "list_all (\<lambda>(request, k). k = i) (waiting w)"
    by (simp_all add: single_flight_def)
  from r obtain op0 where op0: "running w = [op0]" "op_id op0 = i" "op_has_finally op0"
    by (cases "running w") auto
  have all: "filter (\<lambda>(request, k). k = i) (waiting w) = waiting w"
    using wt by (auto simp: list_all_iff intro: filter_True)
  obtain out s1 where o: "(case op_limited op0 of
                   Some error \<Rightarrow> (Inr (RefreshFail error), refresh_state w)
                 | None \<Rightarrow> refresh_continue (op_env op0) (op_reason op0) (refresh_state w)) = (out, s1)"
    by (cases "(case op_limited op0 of
                   Some error \<Rightarrow> (Inr (RefreshFail error), refresh_state w)
                 | None \<Rightarrow> refresh_continue (op_env op0) (op_reason op0) (refresh_state w))")
  have cleared: "inFlightRefreshPromise (settle i w) = None"
    using op0 o by (simp add: settle_def)
  have resp: "responses (settle i w)
                = responses w @ (case out of Inl err \<Rightarrow> []
                                  | Inr r \<Rightarrow> map (\<lambda>(request, j). (request, r)) (waiting w))"
    using op0 o all by (cases out) (simp_all add: settle_def)
  show ?thesis
  proof (rule conjI)
    show "inFlightRefreshPromise (settle i w) = None" by (rule cleared)
    from resp show "\<exists>out :: js_error + refresh_result. responses (settle i w)
                = responses w @ (case out of Inl err \<Rightarrow> []
                                  | Inr r \<Rightarrow> map (\<lambda>(request, j). (request, r)) (waiting w))"
      by (rule exI)
  qed
qed

lemma alarm_scenario_before:
  "run [OnMessage 1 (Some (str ''manual'')) (env_new_tab 0), OnAlarm (env_new_tab 3000)] worker_initial
   = \<lparr> inFlightRefreshPromise = Some 0,
       refresh_state = \<lparr> nextAllowedRefreshAt = 5500, attempts = 0,
                         trace = [AssignNextAllowed 0 2500, AssignNextAllowed 2500 5500] \<rparr>,
       started = 2,
       running = [\<lparr> op_id = 0, op_reason = str ''manual'', op_env = env_new_tab 0,
                     op_limited = None, op_has_finally = True \<rparr>,
                  \<lparr> op_id = 1, op_reason = str ''alarm'', op_env = env_new_tab 3000,
                     op_limited = None, op_has_finally = False \<rparr>],
       waiting = [(1, 0)],
       responses = [] \<rparr>"
  by (simp add: run_def on_message_def on_alarm_def start_refresh_def refresh_enter_def
        message_reason_def worker_initial_def sw_initial_def env_new_tab_def emit_def
        MIN_REFRESH_GAP_MS_def Let_def str_def)


lemma alarm_scenario_after:
  "trace (refresh_state (run [OnMessage 1 (Some (str ''manual'')) (env_new_tab 0),
                              OnAlarm (env_new_tab 3000), Settle 0, Settle 1] worker_initial))
   = [AssignNextAllowed 0 2500, AssignNextAllowed 2500 5500,
      PermissionsContains, StorageSyncGet, TabsQuery, TabsCreate,
      InstallRule 7, WaitForTabUrl 7, Sleep 120, TabsGet 7, ExecuteScript 7,
      SetLastError \<lparr> err_at = 0, err_reason = str ''manual'', err_code = extract_failed,
                     err_detail = Some (ExtractDetail (DetailText (str ''auth_required''))) \<rparr>,
      ClearRule, TabsRemove 7,
      PermissionsContains, StorageSyncGet, TabsQuery, TabsCreate,
      InstallRule 7, WaitForTabUrl 7, Sleep 120, TabsGet 7, ExecuteScript 7,
      SetLastError \<lparr> err_at = 3000, err_reason = str ''alarm'', err_code = extract_failed,
                     err_detail = Some (ExtractDetail (DetailText (str ''auth_required''))) \<rparr>,
      ClearRule, TabsRemove 7]"
proof -
  have split: "run [OnMessage 1 (Some (str ''manual'')) (env_new_tab 0),
                    OnAlarm (env_new_tab 3000), Settle 0, Settle 1] worker_initial
               = run [Settle 0, Settle 1]
                   (run [OnMessage 1 (Some (str ''manual'')) (env_new_tab 0),
                         OnAlarm (env_new_tab 3000)] worker_initial)"
    by (simp add: run_def)
  show ?thesis
    unfolding split alarm_scenario_before
    by (simp add: run_def settle_def refresh_continue_def acquire_tab_def
        findExistingDashboardTab_def usable_id_def try_block_def finally_block_def fail_with_def
        remote_rate_limited_def getPrefs_def merged_prefs_def stored_prefs_def get_prop_def
        DEFAULT_PREFS_def
        extractDashboardWithResultRetry_def result_loop.simps
        executeExtractWithRetry_def extract_loop.simps inject_once_def
        env_new_tab_def emit_def retryableResult_def
        toLowerCase_def lower_unit_def str_def Let_def)
qed

text \<open>
  C2, at an input where the claim fails. A message starts a refresh at clock 0; while it
  is in flight the alarm fires at clock 3000, past the gap of 2500 ms. The alarm listener
  calls \<open>refreshDashboardData\<close> without looking at the marker, so a second operation
  passes the local rate limit: the marker still holds operation 0, two operations are in
  flight on their way to the tab, and once both have settled \<open>tabs.create\<close> has been
  called twice.
\<close>

theorem alarm_starts_second_refresh:
  "inFlightRefreshPromise
     (run [OnMessage 1 (Some (str ''manual'')) (env_new_tab 0), OnAlarm (env_new_tab 3000)]
        worker_initial) = Some 0
   \<and> map op_id (provisioning
        (run [OnMessage 1 (Some (str ''manual'')) (env_new_tab 0), OnAlarm (env_new_tab 3000)]
           worker_initial)) = [0, 1]
   \<and> length (filter (\<lambda>x. x = TabsCreate)
        (trace (refresh_state
           (run [OnMessage 1 (Some (str ''manual'')) (env_new_tab 0), OnAlarm (env_new_tab 3000),
                 Settle 0, Settle 1] worker_initial)))) = 2"
  using alarm_scenario_before alarm_scenario_after
  by (simp add: provisioning_def)

section \<open>Properties of the DOM extractor\<close>

lemma balance_only_extract:
  "extractRightCodesDashboard page_balance_only
   = ExtractOk \<lparr> fetchedAt = str ''2025-01-01T00:00:00.000Z'',
                 url = str ''https://www.right.codes/dashboard'',
                 snap_title = str ''Right Codes'',
                 snap_balance = \<lparr> bal_raw = Some (str ''$12.50''), bal_amount = Some (NumberOf (str ''12.50'')) \<rparr>,
                 subscriptions = [],
                 totals = [] \<rparr>"
  by (simp add: extractRightCodesDashboard_def page_balance_only_def startsWith_def
        rate_limit_text_def toLowerCase_def lower_unit_def normalize_text_def trim_def
        collapse_spaces_def is_space_def balance_at_def lit_def one_of_def spaces_def
        number_run_def is_num_unit_def str_def Let_def)


lemma balance_match_success:
  assumes "\<not> startsWith (pathname p) (str ''/login'')"
      and "\<not> rate_limit_text (toLowerCase (normalize_text (Some (bodyTextEarly p))))"
      and "mainFound p"
      and "match_balance (normalize_text (Some (mainTextContent p))) = Some g"
  shows "extractRightCodesDashboard p
         = ExtractOk \<lparr> fetchedAt = pageClock p, url = href p, snap_title = title p,
               snap_balance = \<lparr> bal_raw = Some (36 # g), bal_amount = Some (NumberOf g) \<rparr>,
               subscriptions = (case subGrid p of None \<Rightarrow> []
                                | Some cards \<Rightarrow> List.map_filter parse_card cards),
               totals = (case totalsGrid p of None \<Rightarrow> [] | Some tcs \<Rightarrow> build_totals tcs) \<rparr>"
  using assms by (simp add: extractRightCodesDashboard_def Let_def)

lemma not_ready_only_when_all_empty:
  assumes "extractRightCodesDashboard p = ExtractFail (str ''dashboard_data_not_ready'') t"
  shows "match_balance (normalize_text (Some (mainTextContent p))) = None
         \<and> (case subGrid p of None \<Rightarrow> [] | Some cards \<Rightarrow> List.map_filter parse_card cards) = []
         \<and> (case totalsGrid p of None \<Rightarrow> [] | Some tcs \<Rightarrow> build_totals tcs) = []"
proof -
  have ne: "str ''dashboard_data_not_ready'' \<noteq> str ''auth_required''"
    "str ''dashboard_data_not_ready'' \<noteq> str ''too_many_requests''"
    "str ''dashboard_data_not_ready'' \<noteq> str ''main_not_found''"
    by (simp_all add: str_def)
  from assms ne show ?thesis
    by (auto simp: extractRightCodesDashboard_def Let_def split: if_splits option.splits)
qed

text \<open>
  C8, as amended. On a page that is not the login page, shows no phrase of the remote
  limiter and has its content container, whose main text matches the balance pattern
  with the figure \<open>g\<close> (\<open>12.50\<close> for the balance \<open>$12.50\<close>) and which has neither
  the subscription grid nor the totals grid, the extractor returns a success: the
  snapshot carries the balance \<open>$g\<close> and empty subscriptions and totals. The failure
  \<open>dashboard_data_not_ready\<close> needs the balance to be absent as well
  (\<open>not_ready_only_when_all_empty\<close>).
\<close>

theorem balance_without_grids_is_success:
  assumes "\<not> startsWith (pathname p) (str ''/login'')"
      and "\<not> rate_limit_text (toLowerCase (normalize_text (Some (bodyTextEarly p))))"
      and "mainFound p"
      and "match_balance (normalize_text (Some (mainTextContent p))) = Some g"
      and "subGrid p = None"
      and "totalsGrid p = None"
  shows "extractRightCodesDashboard p
         = ExtractOk \<lparr> fetchedAt = pageClock p, url = href p, snap_title = title p,
               snap_balance = \<lparr> bal_raw = Some (36 # g), bal_amount = Some (NumberOf g) \<rparr>,
               subscriptions = [], totals = [] \<rparr>"
  using balance_match_success[OF assms(1-4)] assms(5,6) by simp

lemma add_row_other:
  "normalize_text (row_label r) \<noteq> k \<Longrightarrow> add_row m r k = m k"
  by (auto simp: add_row_def Let_def split: option.splits)

lemma foldl_add_row_other:
  "\<forall>r \<in> set rs. normalize_text (row_label r) \<noteq> k \<Longrightarrow> foldl add_row m rs k = m k"
  by (induction rs arbitrary: m) (simp_all add: add_row_other)

lemma label_quota_facts: "LABEL_QUOTA \<noteq> []" "LABEL_QUOTA \<noteq> LABEL_ENDPOINTS"
  by (simp_all add: LABEL_QUOTA_def LABEL_ENDPOINTS_def)

lemma add_row_quota:
  assumes "add_row m r LABEL_QUOTA = Some (CellText q)"
  shows "m LABEL_QUOTA = Some (CellText q)
         \<or> (\<exists>v. normalize_text (row_label r) = LABEL_QUOTA \<and> row_value r = Some v
                  \<and> normalize_text (Some (el_text v)) = q)"
  using assms label_quota_facts
  by (auto simp: add_row_def Let_def split: option.splits if_splits)

lemma foldl_add_row_quota:
  "foldl add_row m rs LABEL_QUOTA = Some (CellText q) \<Longrightarrow>
   m LABEL_QUOTA = Some (CellText q)
   \<or> (\<exists>r \<in> set rs. \<exists>v. normalize_text (row_label r) = LABEL_QUOTA \<and> row_value r = Some v
            \<and> normalize_text (Some (el_text v)) = q)"
proof (induction rs arbitrary: m)
  case Nil
  then show ?case by simp
next
  case (Cons r rs)
  from Cons.prems have "foldl add_row (add_row m r) rs LABEL_QUOTA = Some (CellText q)" by simp
  from Cons.IH[OF this] add_row_quota[of m r q] show ?case by auto
qed

lemma parse_quota_cases:
  "parse_quota None = None"
  "parse_quota (Some (CellText q)) = Some (QuotaRawOnly q') \<longleftrightarrow> (q' = q \<and> match_quota q = None)"
  "parse_quota (Some (CellEndpoints es)) = None"
  by (auto simp: parse_quota_def split: option.splits)

lemma parse_card_quota:
  "card_rows c \<noteq> [] \<Longrightarrow>
   \<exists>sub. parse_card c = Some sub \<and> quota sub = parse_quota (build_byLabel (card_rows c) LABEL_QUOTA)"
  by (simp add: parse_card_def Let_def)

text \<open>
  C10. A subscription card with at least one row is not skipped: the loop body yields a
  subscription record, and the extractor that reaches the grid holding the card returns a
  snapshot with that record among its subscriptions. When no row of the card has the
  quota label, the quota of the record is \<open>null\<close> (\<open>None\<close>), a third shape next to the
  parsed one and the raw one. The quota is a raw-only record only if some row with the
  quota label and a value cell has that text as its normalized text and the text does
  not match the quota pattern.
\<close>

theorem quota_null_without_row:
  assumes "card_rows c \<noteq> []"
  shows "\<exists>sub. parse_card c = Some sub
           \<and> ((\<forall>r \<in> set (card_rows c). normalize_text (row_label r) \<noteq> LABEL_QUOTA) \<longrightarrow> quota sub = None)
           \<and> (\<forall>q. quota sub = Some (QuotaRawOnly q) \<longrightarrow>
                  (\<exists>r \<in> set (card_rows c). \<exists>v. normalize_text (row_label r) = LABEL_QUOTA
                       \<and> row_value r = Some v \<and> normalize_text (Some (el_text v)) = q)
                  \<and> match_quota q = None)
           \<and> (\<forall>p cards. \<not> startsWith (pathname p) (str ''/login'')
                  \<and> \<not> rate_limit_text (toLowerCase (normalize_text (Some (bodyTextEarly p))))
                  \<and> mainFound p \<and> subGrid p = Some cards \<and> c \<in> set cards \<longrightarrow>
                  (\<exists>snap. extractRightCodesDashboard p = ExtractOk snap
                      \<and> sub \<in> set (subscriptions snap)))"
proof -
  from parse_card_quota[OF assms] obtain sub where
    sub: "parse_card c = Some sub"
         "quota sub = parse_quota (build_byLabel (card_rows c) LABEL_QUOTA)"
    by blast
  have a: "(\<forall>r \<in> set (card_rows c). normalize_text (row_label r) \<noteq> LABEL_QUOTA) \<longrightarrow> quota sub = None"
    using sub(2) by (auto simp: build_byLabel_def foldl_add_row_other parse_quota_cases)
  have b: "\<forall>q. quota sub = Some (QuotaRawOnly q) \<longrightarrow>
                  (\<exists>r \<in> set (card_rows c). \<exists>v. normalize_text (row_label r) = LABEL_QUOTA
                       \<and> row_value r = Some v \<and> normalize_text (Some (el_text v)) = q)
                  \<and> match_quota q = None"
  proof (intro allI impI)
    fix q assume q: "quota sub = Some (QuotaRawOnly q)"
    with sub(2) obtain q0 where q0: "build_byLabel (card_rows c) LABEL_QUOTA = Some (CellText q0)"
      by (auto simp: parse_quota_def split: option.splits cell.splits)
    with q sub(2) have "q0 = q" "match_quota q = None"
      by (auto simp: parse_quota_cases)
    with q0 foldl_add_row_quota[of Map.empty "card_rows c" q]
    show "(\<exists>r \<in> set (card_rows c). \<exists>v. normalize_text (row_label r) = LABEL_QUOTA
                       \<and> row_value r = Some v \<and> normalize_text (Some (el_text v)) = q)
                  \<and> match_quota q = None"
      by (simp add: build_byLabel_def)
  qed
  have c: "\<forall>p cards. \<not> startsWith (pathname p) (str ''/login'')
                  \<and> \<not> rate_limit_text (toLowerCase (normalize_text (Some (bodyTextEarly p))))
                  \<and> mainFound p \<and> subGrid p = Some cards \<and> c \<in> set cards \<longrightarrow>
                  (\<exists>snap. extractRightCodesDashboard p = ExtractOk snap
                      \<and> sub \<in> set (subscriptions snap))"
  proof (intro allI impI)
    fix p :: page and cards
    assume h: "\<not> startsWith (pathname p) (str ''/login'')
                  \<and> \<not> rate_limit_text (toLowerCase (normalize_text (Some (bodyTextEarly p))))
                  \<and> mainFound p \<and> subGrid p = Some cards \<and> c \<in> set cards"
    with sub(1) have mem: "sub \<in> set (List.map_filter parse_card cards)"
      by (force simp: map_filter_def)
    then have "List.map_filter parse_card cards \<noteq> []" by auto
    with h mem show "\<exists>snap. extractRightCodesDashboard p = ExtractOk snap
                      \<and> sub \<in> set (subscriptions snap)"
      by (simp add: extractRightCodesDashboard_def Let_def)
  qed
  from sub(1) a b c show ?thesis by blast
qed


text \<open>
  C8, as stated, fails: the page \<open>page_balance_only\<close> shows the balance \<open>$12.50\<close>
  (its main text matches the balance pattern) and has no subscription grid and no totals
  grid, and the extractor does not return \<open>dashboard_data_not_ready\<close> for it.
\<close>

theorem balance_without_grids_counterexample:
  "match_balance (normalize_text (Some (mainTextContent page_balance_only))) = Some (str ''12.50'')
   \<and> subGrid page_balance_only = None
   \<and> totalsGrid page_balance_only = None
   \<and> extractRightCodesDashboard page_balance_only
       \<noteq> ExtractFail (str ''dashboard_data_not_ready'') (pageClock page_balance_only)"
proof -
  have "match_balance (normalize_text (Some (mainTextContent page_balance_only))) = Some (str ''12.50'')"
    by (simp add: page_balance_only_def normalize_text_def trim_def
        collapse_spaces_def is_space_def balance_at_def lit_def one_of_def spaces_def
        number_run_def is_num_unit_def str_def)
  then show ?thesis
    by (simp add: balance_only_extract) (simp add: page_balance_only_def)
qed

theorem balance_without_grids_is_success_witness:
  "\<not> startsWith (pathname page_balance_only) (str ''/login'')
   \<and> \<not> rate_limit_text (toLowerCase (normalize_text (Some (bodyTextEarly page_balance_only))))
   \<and> mainFound page_balance_only
   \<and> match_balance (normalize_text (Some (mainTextContent page_balance_only))) = Some (str ''12.50'')
   \<and> subGrid page_balance_only = None
   \<and> totalsGrid page_balance_only = None
   \<and> extractRightCodesDashboard page_balance_only
       = ExtractOk \<lparr> fetchedAt = pageClock page_balance_only, url = href page_balance_only,
            snap_title = title page_balance_only,
            snap_balance = \<lparr> bal_raw = Some (36 # str ''12.50''),
                               bal_amount = Some (NumberOf (str ''12.50'')) \<rparr>,
            subscriptions = [], totals = [] \<rparr>"
proof -
  have h1: "\<not> startsWith (pathname page_balance_only) (str ''/login'')"
    by (simp add: page_balance_only_def startsWith_def str_def)
  have h2: "\<not> rate_limit_text (toLowerCase (normalize_text (Some (bodyTextEarly page_balance_only))))"
    by (simp add: page_balance_only_def rate_limit_text_def toLowerCase_def lower_unit_def
          normalize_text_def trim_def collapse_spaces_def is_space_def str_def)
  have h3: "mainFound page_balance_only"
    by (simp add: page_balance_only_def)
  have h4: "match_balance (normalize_text (Some (mainTextContent page_balance_only))) = Some (str ''12.50'')"
    by (simp add: page_balance_only_def normalize_text_def trim_def
        collapse_spaces_def is_space_def balance_at_def lit_def one_of_def spaces_def
        number_run_def is_num_unit_def str_def)
  have h5: "subGrid page_balance_only = None" by (simp add: page_balance_only_def)
  have h6: "totalsGrid page_balance_only = None" by (simp add: page_balance_only_def)
  from balance_without_grids_is_success [OF h1 h2 h3 h4 h5 h6] h1 h2 h3 h4 h5 h6
  show ?thesis by simp
qed

lemma card_without_quota_rows:
  "card_rows card_without_quota \<noteq> []"
  "map (\<lambda>r. normalize_text (row_label r)) (card_rows card_without_quota) = [LABEL_EXPIRES]"
  "LABEL_EXPIRES \<noteq> LABEL_QUOTA"
  by (simp_all add: card_without_quota_def normalize_text_def trim_def collapse_spaces_def
        is_space_def LABEL_QUOTA_def LABEL_EXPIRES_def)

lemma card_unlimited_quota_parsed:
  "card_rows card_unlimited_quota \<noteq> []"
  "map_option quota (parse_card card_unlimited_quota) = Some (Some (QuotaRawOnly [0x65E0, 0x9650, 0x5236]))"
  by (simp_all add: card_unlimited_quota_def parse_card_def build_byLabel_def add_row_def
        parse_quota_def quota_at_def lit_def
        normalize_text_def trim_def collapse_spaces_def is_space_def
        LABEL_QUOTA_def LABEL_ENDPOINTS_def LABEL_REMAINING_DAYS_def Let_def)

theorem quota_null_without_row_witness:
  "card_rows card_without_quota \<noteq> []
   \<and> map (\<lambda>r. normalize_text (row_label r)) (card_rows card_without_quota) = [LABEL_EXPIRES]
   \<and> LABEL_EXPIRES \<noteq> LABEL_QUOTA
   \<and> map_option quota (parse_card card_without_quota) = Some None
   \<and> (\<exists>snap sub. extractRightCodesDashboard page_with_card = ExtractOk snap
          \<and> sub \<in> set (subscriptions snap) \<and> quota sub = None)
   \<and> map_option quota (parse_card card_unlimited_quota) = Some (Some (QuotaRawOnly [0x65E0, 0x9650, 0x5236]))
   \<and> match_quota [0x65E0, 0x9650, 0x5236] = None"
proof -
  note h = card_without_quota_rows
  have no_row: "\<forall>r \<in> set (card_rows card_without_quota). normalize_text (row_label r) \<noteq> LABEL_QUOTA"
  proof
    fix r assume "r \<in> set (card_rows card_without_quota)"
    then have "normalize_text (row_label r)
                 \<in> set (map (\<lambda>r. normalize_text (row_label r)) (card_rows card_without_quota))"
      by simp
    with h(2,3) show "normalize_text (row_label r) \<noteq> LABEL_QUOTA" by simp
  qed
  from quota_null_without_row [OF h(1)] no_row obtain sub where
    sub: "parse_card card_without_quota = Some sub" "quota sub = None"
      "\<forall>p cards. \<not> startsWith (pathname p) (str ''/login'')
                  \<and> \<not> rate_limit_text (toLowerCase (normalize_text (Some (bodyTextEarly p))))
                  \<and> mainFound p \<and> subGrid p = Some cards \<and> card_without_quota \<in> set cards \<longrightarrow>
                  (\<exists>snap. extractRightCodesDashboard p = ExtractOk snap
                      \<and> sub \<in> set (subscriptions snap))"
    by blast
  have pg: "\<not> startsWith (pathname page_with_card) (str ''/login'')
           \<and> \<not> rate_limit_text (toLowerCase (normalize_text (Some (bodyTextEarly page_with_card))))
           \<and> mainFound page_with_card \<and> subGrid page_with_card = Some [card_without_quota]
           \<and> card_without_quota \<in> set [card_without_quota]"
    by (simp add: page_with_card_def page_balance_only_def startsWith_def rate_limit_text_def
          toLowerCase_def lower_unit_def normalize_text_def trim_def collapse_spaces_def
          is_space_def str_def)
  with sub(3) obtain snap where
    "extractRightCodesDashboard page_with_card = ExtractOk snap" "sub \<in> set (subscriptions snap)"
    by blast
  with sub(2) have e2e: "\<exists>snap sub. extractRightCodesDashboard page_with_card = ExtractOk snap
          \<and> sub \<in> set (subscriptions snap) \<and> quota sub = None"
    by blast
  note u = card_unlimited_quota_parsed
  from quota_null_without_row [OF u(1)] u(2) have "match_quota [0x65E0, 0x9650, 0x5236] = None"
    by auto
  with h sub(1,2) e2e u(2) show ?thesis by simp
qed

section \<open>Properties of the retry drivers\<close>

lemma upt_0_Suc_shift: "[0..<Suc n] = 0 # map Suc [0..<n]"
  by (simp add: upt_conv_Cons map_Suc_upt del: upt_Suc)

lemma emit_simps [simp]:
  "attempts (emit es s) = attempts s"
  "nextAllowedRefreshAt (emit es s) = nextAllowedRefreshAt s"
  "trace (emit es s) = trace s @ es"
  by (simp_all add: emit_def)

lemma extract_loop_stop:
  assumes "a \<le> m" "\<not> throws_retryable e t (attempts s) \<or> a = m"
  shows "extract_loop e t m a l s
         = (fst (inject_once e t (attempts s)),
            emit (snd (inject_once e t (attempts s))) (s\<lparr>attempts := attempts s + 1\<rparr>))"
  using assms
  by (cases "inject_once e t (attempts s)")
     (auto simp: extract_loop.simps[of e t m a l s] throws_retryable_def split: sum.splits)

lemma extract_loop_retry:
  assumes "a < m" "throws_retryable e t (attempts s)"
  shows "\<exists>err. extract_loop e t m a l s
         = extract_loop e t m (a + 1) (Some err)
             (emit [Sleep (220 * a)]
                (emit (snd (inject_once e t (attempts s))) (s\<lparr>attempts := attempts s + 1\<rparr>)))"
  using assms
  by (cases "inject_once e t (attempts s)")
     (auto simp: extract_loop.simps[of e t m a l s] throws_retryable_def split: sum.splits)

lemma extract_loop_spec:
  "a \<le> m \<Longrightarrow> extract_loop e t m a l s = (r, s') \<Longrightarrow>
   \<exists>n. a + n \<le> m
     \<and> attempts s' = attempts s + n + 1
     \<and> nextAllowedRefreshAt s' = nextAllowedRefreshAt s
     \<and> (\<forall>i<n. throws_retryable e t (attempts s + i))
     \<and> r = fst (inject_once e t (attempts s + n))
     \<and> (a + n < m \<longrightarrow> \<not> throws_retryable e t (attempts s + n))
     \<and> trace s' = trace s
          @ concat (map (\<lambda>i. snd (inject_once e t (attempts s + i)) @ [Sleep (220 * (a + i))]) [0..<n])
          @ snd (inject_once e t (attempts s + n))"
proof (induction "m - a" arbitrary: a l s)
  case 0
  then have "a = m" by simp
  with 0 extract_loop_stop[of a m e t s l] show ?case
    by (intro exI[of _ 0]) auto
next
  case (Suc d)
  show ?case
  proof (cases "throws_retryable e t (attempts s)")
    case False
    with Suc.prems extract_loop_stop[of a m e t s l] show ?thesis
      by (intro exI[of _ 0]) auto
  next
    case True
    from Suc.hyps(2) have lt: "a < m" by simp
    define s2 where "s2 = emit [Sleep (220 * a)]
                (emit (snd (inject_once e t (attempts s))) (s\<lparr>attempts := attempts s + 1\<rparr>))"
    from extract_loop_retry[OF lt True, of l] Suc.prems(2)
    obtain err where rec: "extract_loop e t m (a + 1) (Some err) s2 = (r, s')"
      by (auto simp: s2_def)
    have s2_simps: "attempts s2 = attempts s + 1" "nextAllowedRefreshAt s2 = nextAllowedRefreshAt s"
      "trace s2 = trace s @ snd (inject_once e t (attempts s)) @ [Sleep (220 * a)]"
      by (simp_all add: s2_def)
    have "d = m - (a + 1)" using Suc.hyps(2) by simp
    from Suc.hyps(1)[OF this _ rec] lt
    obtain n where n: "a + 1 + n \<le> m" "attempts s' = attempts s2 + n + 1"
      "nextAllowedRefreshAt s' = nextAllowedRefreshAt s2"
      "\<forall>i<n. throws_retryable e t (attempts s2 + i)"
      "r = fst (inject_once e t (attempts s2 + n))"
      "a + 1 + n < m \<longrightarrow> \<not> throws_retryable e t (attempts s2 + n)"
      "trace s' = trace s2
          @ concat (map (\<lambda>i. snd (inject_once e t (attempts s2 + i)) @ [Sleep (220 * (a + 1 + i))]) [0..<n])
          @ snd (inject_once e t (attempts s2 + n))"
      by auto
    have all: "\<forall>i<Suc n. throws_retryable e t (attempts s + i)"
    proof (intro allI impI)
      fix i assume "i < Suc n"
      then show "throws_retryable e t (attempts s + i)"
        using True n(4) by (cases i) (auto simp: s2_simps)
    qed
    have tr: "trace s' = trace s
          @ concat (map (\<lambda>i. snd (inject_once e t (attempts s + i)) @ [Sleep (220 * (a + i))]) [0..<Suc n])
          @ snd (inject_once e t (attempts s + Suc n))"
      unfolding upt_0_Suc_shift using n(7) by (simp add: s2_simps comp_def ac_simps)
    show ?thesis
      using n(1,2,3,5,6) all tr by (intro exI[of _ "Suc n"]) (simp add: s2_simps)
  qed
qed


text \<open>
  C6. Whatever the injections do, \<open>executeExtractWithRetry\<close> with its default of four
  attempts makes \<open>n + 1 \<le> 4\<close> attempts. Each attempt before the last threw an error
  with a transient signature and was followed by a sleep of 220 ms times its attempt
  number; the outcome is that of the last attempt, its value returned or its error
  thrown again; and the driver stops before the fourth attempt only when the last
  attempt did not throw a transient error, so an error without a signature is thrown
  again at once and the fourth transient error is thrown again too.
\<close>

theorem executeExtractWithRetry_bounded_retry:
  assumes "executeExtractWithRetry e tabId 4 s = (r, s')"
  shows "\<exists>n<4. attempts s' = attempts s + n + 1
     \<and> (\<forall>i<n. throws_retryable e tabId (attempts s + i))
     \<and> r = fst (inject_once e tabId (attempts s + n))
     \<and> (n < 3 \<longrightarrow> \<not> throws_retryable e tabId (attempts s + n))
     \<and> trace s' = trace s
          @ concat (map (\<lambda>i. snd (inject_once e tabId (attempts s + i)) @ [Sleep (220 * (i + 1))]) [0..<n])
          @ snd (inject_once e tabId (attempts s + n))"
proof -
  from assms have "extract_loop e tabId 4 1 None s = (r, s')"
    by (simp add: executeExtractWithRetry_def)
  from extract_loop_spec[OF _ this]
  obtain n where n: "1 + n \<le> 4" "attempts s' = attempts s + n + 1"
      "\<forall>i<n. throws_retryable e tabId (attempts s + i)"
      "r = fst (inject_once e tabId (attempts s + n))"
      "1 + n < 4 \<longrightarrow> \<not> throws_retryable e tabId (attempts s + n)"
      "trace s' = trace s
          @ concat (map (\<lambda>i. snd (inject_once e tabId (attempts s + i)) @ [Sleep (220 * (1 + i))]) [0..<n])
          @ snd (inject_once e tabId (attempts s + n))"
    by auto
  then show ?thesis
    by (intro exI[of _ n]) (simp add: ac_simps)
qed

lemma frame_lost_twice_run:
  "executeExtractWithRetry env_frame_lost_twice 7 4 sw_initial
   = (Inr (Some (ExtractFail (str ''auth_required'') [])),
      \<lparr> nextAllowedRefreshAt = 0, attempts = 3,
        trace = [TabsGet 7, ExecuteScript 7, Sleep 220,
                 TabsGet 7, ExecuteScript 7, Sleep 440,
                 TabsGet 7, ExecuteScript 7] \<rparr>)"
  by (simp add: executeExtractWithRetry_def extract_loop.simps inject_once_def
        env_frame_lost_twice_def sw_initial_def emit_def retryable_def str_def)


theorem executeExtractWithRetry_bounded_retry_witness:
  "executeExtractWithRetry env_frame_lost_twice 7 4 sw_initial
     = (Inr (Some (ExtractFail (str ''auth_required'') [])),
        \<lparr> nextAllowedRefreshAt = 0, attempts = 3,
          trace = [TabsGet 7, ExecuteScript 7, Sleep 220,
                   TabsGet 7, ExecuteScript 7, Sleep 440,
                   TabsGet 7, ExecuteScript 7] \<rparr>)
   \<and> throws_retryable env_frame_lost_twice 7 0
   \<and> throws_retryable env_frame_lost_twice 7 1
   \<and> \<not> throws_retryable env_frame_lost_twice 7 2"
proof -
  note h = frame_lost_twice_run
  from executeExtractWithRetry_bounded_retry [OF h] obtain n where
    n: "n < 4" "(3::nat) = attempts sw_initial + n + 1"
    "\<forall>i<n. throws_retryable env_frame_lost_twice 7 (attempts sw_initial + i)"
    "n < 3 \<longrightarrow> \<not> throws_retryable env_frame_lost_twice 7 (attempts sw_initial + n)"
    by auto
  from n(2) have n2: "n = 2" by (simp add: sw_initial_def)
  from n2 have lt: "(0::nat) < n" "(1::nat) < n" by simp_all
  from n(3) lt(1) have t0: "throws_retryable env_frame_lost_twice 7 (attempts sw_initial + 0)"
    by blast
  from n(3) lt(2) have t1: "throws_retryable env_frame_lost_twice 7 (attempts sw_initial + 1)"
    by blast
  from n(4) n2 have t2: "\<not> throws_retryable env_frame_lost_twice 7 (attempts sw_initial + 2)"
    by simp
  from t0 t1 t2 have "throws_retryable env_frame_lost_twice 7 0
      \<and> throws_retryable env_frame_lost_twice 7 1
      \<and> \<not> throws_retryable env_frame_lost_twice 7 2"
    by (simp add: sw_initial_def numeral_2_eq_2)
  with h show ?thesis by blast
qed

lemma executeExtractWithRetry_returns:
  assumes "tabs_get e (attempts s) = Inr (Some tb)" "execute_script e (attempts s) = Inr r"
  shows "executeExtractWithRetry e t 4 s
         = (Inr r, emit [TabsGet t, ExecuteScript t] (s\<lparr>attempts := attempts s + 1\<rparr>))"
proof -
  have io: "inject_once e t (attempts s) = (Inr r, [TabsGet t, ExecuteScript t])"
    using assms by (simp add: inject_once_def)
  then have "\<not> throws_retryable e t (attempts s)"
    by (simp add: throws_retryable_def)
  from extract_loop_stop[of 1 4 e t s None] this io show ?thesis
    by (simp add: executeExtractWithRetry_def)
qed

lemma result_loop_stop:
  assumes "a \<le> m" "tabs_get e (attempts s) = Inr (Some tb)" "execute_script e (attempts s) = Inr r"
    "\<not> retried_result r \<or> a = m"
  shows "result_loop e t m a l s
         = (Inr r, emit [TabsGet t, ExecuteScript t] (s\<lparr>attempts := attempts s + 1\<rparr>))"
  using assms(1,4)
  by (auto simp: result_loop.simps[of e t m a l s] retried_result_def
        executeExtractWithRetry_returns[OF assms(2,3)])

lemma result_loop_retry:
  assumes "a < m" "tabs_get e (attempts s) = Inr (Some tb)" "execute_script e (attempts s) = Inr r"
    "retried_result r"
  shows "result_loop e t m a l s
         = result_loop e t m (a + 1) r
             (emit [Sleep (300 * a)]
               (emit [TabsGet t, ExecuteScript t] (s\<lparr>attempts := attempts s + 1\<rparr>)))"
  using assms(1,4)
  by (auto simp: result_loop.simps[of e t m a l s] retried_result_def
        executeExtractWithRetry_returns[OF assms(2,3)])

lemma result_loop_spec:
  assumes tg: "\<forall>k. \<exists>tb. tabs_get e k = Inr (Some tb)"
      and ex: "\<forall>k. execute_script e k = Inr (res k)"
  shows "a \<le> m \<Longrightarrow> result_loop e t m a l s = (r, s') \<Longrightarrow>
   \<exists>n. a + n \<le> m
     \<and> attempts s' = attempts s + n + 1
     \<and> nextAllowedRefreshAt s' = nextAllowedRefreshAt s
     \<and> (\<forall>i<n. retried_result (res (attempts s + i)))
     \<and> r = Inr (res (attempts s + n))
     \<and> (a + n < m \<longrightarrow> \<not> retried_result (res (attempts s + n)))
     \<and> trace s' = trace s
          @ concat (map (\<lambda>i. [TabsGet t, ExecuteScript t, Sleep (300 * (a + i))]) [0..<n])
          @ [TabsGet t, ExecuteScript t]"
proof (induction "m - a" arbitrary: a l s)
  case 0
  then have am: "a = m" by simp
  from tg obtain tb where tb: "tabs_get e (attempts s) = Inr (Some tb)" by blast
  from ex have r0: "execute_script e (attempts s) = Inr (res (attempts s))" by blast
  from result_loop_stop[OF "0.prems"(1) tb r0, of t l] am "0.prems"(2) show ?case
    by (intro exI[of _ 0]) auto
next
  case (Suc d)
  from tg obtain tb where tb: "tabs_get e (attempts s) = Inr (Some tb)" by blast
  from ex have r0: "execute_script e (attempts s) = Inr (res (attempts s))" by blast
  show ?case
  proof (cases "retried_result (res (attempts s))")
    case False
    with result_loop_stop[OF Suc.prems(1) tb r0, of t l] Suc.prems show ?thesis
      by (intro exI[of _ 0]) auto
  next
    case True
    from Suc.hyps(2) have lt: "a < m" by simp
    define s2 where "s2 = emit [Sleep (300 * a)]
               (emit [TabsGet t, ExecuteScript t] (s\<lparr>attempts := attempts s + 1\<rparr>))"
    from result_loop_retry[OF lt tb r0 True, of t l] Suc.prems(2)
    have rec: "result_loop e t m (a + 1) (res (attempts s)) s2 = (r, s')"
      by (simp add: s2_def)
    have s2_simps: "attempts s2 = attempts s + 1" "nextAllowedRefreshAt s2 = nextAllowedRefreshAt s"
      "trace s2 = trace s @ [TabsGet t, ExecuteScript t, Sleep (300 * a)]"
      by (simp_all add: s2_def)
    have "d = m - (a + 1)" using Suc.hyps(2) by simp
    from Suc.hyps(1)[OF this _ rec] lt
    obtain n where n: "a + 1 + n \<le> m" "attempts s' = attempts s2 + n + 1"
      "nextAllowedRefreshAt s' = nextAllowedRefreshAt s2"
      "\<forall>i<n. retried_result (res (attempts s2 + i))"
      "r = Inr (res (attempts s2 + n))"
      "a + 1 + n < m \<longrightarrow> \<not> retried_result (res (attempts s2 + n))"
      "trace s' = trace s2
          @ concat (map (\<lambda>i. [TabsGet t, ExecuteScript t, Sleep (300 * (a + 1 + i))]) [0..<n])
          @ [TabsGet t, ExecuteScript t]"
      by auto
    have all: "\<forall>i<Suc n. retried_result (res (attempts s + i))"
    proof (intro allI impI)
      fix i assume "i < Suc n"
      then show "retried_result (res (attempts s + i))"
        using True n(4) by (cases i) (auto simp: s2_simps)
    qed
    have tr: "trace s' = trace s
          @ concat (map (\<lambda>i. [TabsGet t, ExecuteScript t, Sleep (300 * (a + i))]) [0..<Suc n])
          @ [TabsGet t, ExecuteScript t]"
      unfolding upt_0_Suc_shift using n(7) by (simp add: s2_simps comp_def ac_simps)
    show ?thesis
      using n(1,2,3,5,6) all tr by (intro exI[of _ "Suc n"]) (simp add: s2_simps)
  qed
qed

text \<open>
  C7. When every injection returns a result (\<open>res k\<close> for the injection with index
  \<open>k\<close>), \<open>extractDashboardWithResultRetry\<close> with its cap of three makes
  \<open>n + 1 \<le> 3\<close> attempts. Each attempt before the last returned a result that is not ok
  and whose error text names \<open>main_not_found\<close> or \<open>dashboard_data_not_ready\<close>, and was
  followed by a sleep of 300 ms times its attempt number; the driver returns the last
  result as a value (\<open>Inr\<close>), and it stops before the third attempt only when that
  result is ok or is a failure of another kind.
\<close>

theorem extractDashboardWithResultRetry_bounded_retry:
  assumes "\<forall>k. \<exists>tb. tabs_get e k = Inr (Some tb)"
      and "\<forall>k. execute_script e k = Inr (res k)"
      and "extractDashboardWithResultRetry e tabId 3 s = (r, s')"
  shows "\<exists>n<3. attempts s' = attempts s + n + 1
     \<and> (\<forall>i<n. retried_result (res (attempts s + i)))
     \<and> r = Inr (res (attempts s + n))
     \<and> (n < 2 \<longrightarrow> \<not> retried_result (res (attempts s + n)))
     \<and> trace s' = trace s
          @ concat (map (\<lambda>i. [TabsGet tabId, ExecuteScript tabId, Sleep (300 * (i + 1))]) [0..<n])
          @ [TabsGet tabId, ExecuteScript tabId]"
proof -
  from assms(3) have "result_loop e tabId 3 1 None s = (r, s')"
    by (simp add: extractDashboardWithResultRetry_def)
  from result_loop_spec[OF assms(1,2) _ this]
  obtain n where n: "1 + n \<le> 3" "attempts s' = attempts s + n + 1"
      "\<forall>i<n. retried_result (res (attempts s + i))"
      "r = Inr (res (attempts s + n))"
      "1 + n < 3 \<longrightarrow> \<not> retried_result (res (attempts s + n))"
      "trace s' = trace s
          @ concat (map (\<lambda>i. [TabsGet tabId, ExecuteScript tabId, Sleep (300 * (1 + i))]) [0..<n])
          @ [TabsGet tabId, ExecuteScript tabId]"
    by auto
  then show ?thesis
    by (intro exI[of _ n]) (simp add: ac_simps)
qed

lemma retried_named_errors:
  "retried_result (Some (ExtractFail (str ''main_not_found'') t))"
  "retried_result (Some (ExtractFail (str ''dashboard_data_not_ready'') t))"
  "\<not> retried_result (Some (ExtractFail (str ''auth_required'') t))"
  "\<not> retried_result (Some (ExtractFail (str ''too_many_requests'') t))"
  "\<not> retried_result None"
  by (simp_all add: retried_result_def retryableResult_def toLowerCase_def lower_unit_def str_def)

lemma never_ready_run:
  "extractDashboardWithResultRetry env_never_ready 7 3 sw_initial
   = (Inr (Some (ExtractFail (str ''dashboard_data_not_ready'') [])),
      \<lparr> nextAllowedRefreshAt = 0, attempts = 3,
        trace = [TabsGet 7, ExecuteScript 7, Sleep 300,
                 TabsGet 7, ExecuteScript 7, Sleep 600,
                 TabsGet 7, ExecuteScript 7] \<rparr>)"
  by (simp add: extractDashboardWithResultRetry_def result_loop.simps
        executeExtractWithRetry_def extract_loop.simps inject_once_def
        env_never_ready_def sw_initial_def emit_def retryableResult_def
        toLowerCase_def lower_unit_def str_def)

theorem extractDashboardWithResultRetry_bounded_retry_witness:
  "(\<forall>k. \<exists>tb. tabs_get env_never_ready k = Inr (Some tb))
   \<and> (\<forall>k. execute_script env_never_ready k
            = Inr (Some (ExtractFail (str ''dashboard_data_not_ready'') [])))
   \<and> extractDashboardWithResultRetry env_never_ready 7 3 sw_initial
       = (Inr (Some (ExtractFail (str ''dashboard_data_not_ready'') [])),
          \<lparr> nextAllowedRefreshAt = 0, attempts = 3,
            trace = [TabsGet 7, ExecuteScript 7, Sleep 300,
                     TabsGet 7, ExecuteScript 7, Sleep 600,
                     TabsGet 7, ExecuteScript 7] \<rparr>)
   \<and> retried_result (Some (ExtractFail (str ''dashboard_data_not_ready'') []))"
proof -
  have h1: "\<forall>k. \<exists>tb. tabs_get env_never_ready k = Inr (Some tb)"
    by (simp add: env_never_ready_def)
  have h2: "\<forall>k. execute_script env_never_ready k
              = Inr ((\<lambda>k. Some (ExtractFail (str ''dashboard_data_not_ready'') [])) k)"
    by (simp add: env_never_ready_def)
  note h3 = never_ready_run
  from extractDashboardWithResultRetry_bounded_retry [OF h1 h2 h3] obtain n where
    n: "n < 3" "(3::nat) = attempts sw_initial + n + 1"
    "\<forall>i<n. retried_result (Some (ExtractFail (str ''dashboard_data_not_ready'') []))"
    by auto
  from n(2) have "0 < n" by (simp add: sw_initial_def)
  with n(3) have "retried_result (Some (ExtractFail (str ''dashboard_data_not_ready'') []))"
    by blast
  with h1 h2 h3 show ?thesis by simp
qed

section \<open>Properties of the refresh operation\<close>

lemma inject_once_effects: "\<forall>x \<in> set (snd (inject_once e t k)). injection_effect x"
  by (auto simp: inject_once_def split: sum.splits option.splits)

lemma extract_loop_frame:
  assumes "extract_loop e t m a l s = (r, s')"
  shows "nextAllowedRefreshAt s' = nextAllowedRefreshAt s
         \<and> (\<exists>es. trace s' = trace s @ es \<and> (\<forall>x \<in> set es. injection_effect x))"
proof (cases "a \<le> m")
  case True
  from extract_loop_spec[OF True assms] obtain n where
    n: "nextAllowedRefreshAt s' = nextAllowedRefreshAt s"
       "trace s' = trace s
          @ concat (map (\<lambda>i. snd (inject_once e t (attempts s + i)) @ [Sleep (220 * (a + i))]) [0..<n])
          @ snd (inject_once e t (attempts s + n))"
    by blast
  have "\<forall>x \<in> set (concat (map (\<lambda>i. snd (inject_once e t (attempts s + i)) @ [Sleep (220 * (a + i))]) [0..<n])
          @ snd (inject_once e t (attempts s + n))). injection_effect x"
    using inject_once_effects by auto
  with n show ?thesis by blast
next
  case False
  with assms show ?thesis
    by (simp add: extract_loop.simps[of e t m a l s])
qed

lemma executeExtractWithRetry_frame:
  assumes "executeExtractWithRetry e t m s = (r, s')"
  shows "nextAllowedRefreshAt s' = nextAllowedRefreshAt s
         \<and> (\<exists>es. trace s' = trace s @ es \<and> (\<forall>x \<in> set es. injection_effect x))"
  using assms extract_loop_frame by (simp add: executeExtractWithRetry_def)

lemma result_loop_frame:
  "result_loop e t m a l s = (r, s') \<Longrightarrow>
   nextAllowedRefreshAt s' = nextAllowedRefreshAt s
   \<and> (\<exists>es. trace s' = trace s @ es \<and> (\<forall>x \<in> set es. injection_effect x))"
proof (induction "m + 1 - a" arbitrary: a l s)
  case 0
  then have "\<not> a \<le> m" by simp
  with 0(2) show ?case
    by (simp add: result_loop.simps[of e t m a l s])
next
  case (Suc d)
  then have le: "a \<le> m" by simp
  obtain o1 s1 where inner: "executeExtractWithRetry e t 4 s = (o1, s1)"
    by (cases "executeExtractWithRetry e t 4 s")
  from executeExtractWithRetry_frame[OF inner] obtain es1 where
    f1: "nextAllowedRefreshAt s1 = nextAllowedRefreshAt s" "trace s1 = trace s @ es1"
        "\<forall>x \<in> set es1. injection_effect x"
    by blast
  show ?case
  proof (cases "\<exists>r1. o1 = Inr r1 \<and> \<not> result_ok r1 \<and> retryableResult r1 \<and> a \<noteq> m")
    case False
    with Suc.prems le inner have "s' = s1"
      by (auto simp: result_loop.simps[of e t m a l s] split: sum.splits if_splits)
    with f1 show ?thesis by blast
  next
    case True
    then obtain r1 where r1: "o1 = Inr r1" "\<not> result_ok r1" "retryableResult r1" "a \<noteq> m"
      by blast
    with Suc.prems le inner
    have rec: "result_loop e t m (a + 1) r1 (emit [Sleep (300 * a)] s1) = (r, s')"
      by (simp add: result_loop.simps[of e t m a l s])
    have "d = m + 1 - (a + 1)" using Suc.hyps(2) by simp
    from Suc.hyps(1)[OF this rec] obtain es2 where
      f2: "nextAllowedRefreshAt s' = nextAllowedRefreshAt s1"
          "trace s' = trace s1 @ [Sleep (300 * a)] @ es2" "\<forall>x \<in> set es2. injection_effect x"
      by auto
    have "trace s' = trace s @ (es1 @ [Sleep (300 * a)] @ es2)"
      using f1 f2 by simp
    moreover have "\<forall>x \<in> set (es1 @ [Sleep (300 * a)] @ es2). injection_effect x"
      using f1 f2 by auto
    ultimately show ?thesis using f1 f2 by metis
  qed
qed

lemma extractDashboardWithResultRetry_frame:
  assumes "extractDashboardWithResultRetry e t m s = (r, s')"
  shows "nextAllowedRefreshAt s' = nextAllowedRefreshAt s
         \<and> (\<exists>es. trace s' = trace s @ es \<and> (\<forall>x \<in> set es. injection_effect x))"
  using assms result_loop_frame by (simp add: extractDashboardWithResultRetry_def)


lemma injection_effect_quiet:
  "injection_effect x \<Longrightarrow> raising_assignment x \<and> \<not> is_error_write x"
  by (cases x) simp_all

lemma fail_with_spec:
  "fail_with e reason c d s = (r, s') \<Longrightarrow>
   r = RefreshFail \<lparr> err_at = clock_error e, err_reason = reason, err_code = c, err_detail = d \<rparr>
   \<and> s' = emit [SetLastError \<lparr> err_at = clock_error e, err_reason = reason, err_code = c, err_detail = d \<rparr>] s"
  by (auto simp: fail_with_def Let_def)

lemma extend_cooldown_spec:
  "nextAllowedRefreshAt s \<le> nextAllowedRefreshAt (extend_cooldown e s)"
  "clock_remote e + REMOTE_RATE_LIMIT_COOLDOWN_MS \<le> nextAllowedRefreshAt (extend_cooldown e s)"
  "\<exists>v. nextAllowedRefreshAt s \<le> v
       \<and> trace (extend_cooldown e s) = trace s @ [AssignNextAllowed (nextAllowedRefreshAt s) v]"
  "attempts (extend_cooldown e s) = attempts s"
  by (simp_all add: extend_cooldown_def Let_def)

lemma try_block_spec:
  assumes "try_block e reason t c s = (r, s')"
  shows "nextAllowedRefreshAt s \<le> nextAllowedRefreshAt s'
         \<and> (\<exists>es. trace s' = trace s @ es \<and> (\<forall>x \<in> set es. raising_assignment x)
                  \<and> writes_one_error r es)"
proof -
  define s1 where "s1 = (if c then emit [InstallRule t] s else s)"
  define s2 where "s2 = emit [WaitForTabUrl t] s1"
  obtain pre where pre: "trace s2 = trace s @ pre" "\<forall>x \<in> set pre. raising_assignment x"
    "filter is_error_write pre = []" "nextAllowedRefreshAt s2 = nextAllowedRefreshAt s"
    by (cases c) (auto simp: s1_def s2_def)
  show ?thesis
  proof (cases "wait_resolves e")
    case False
    with assms have "(r, s') = catch_block e reason (Error (str ''timeout_waiting_for_tab_url'')) s2"
      by (simp add: try_block_def s1_def s2_def Let_def)
    then obtain err where "r = RefreshFail err" "s' = emit [SetLastError err] s2"
      by (auto simp: catch_block_def fail_with_def Let_def)
    with pre show ?thesis
      by (intro conjI exI[of _ "pre @ [SetLastError err]"]) (auto simp: writes_one_error_def)
  next
    case True
    obtain o3 s3 where inner: "extractDashboardWithResultRetry e t 3 (emit [Sleep 120] s2) = (o3, s3)"
      by (cases "extractDashboardWithResultRetry e t 3 (emit [Sleep 120] s2)")
    from extractDashboardWithResultRetry_frame[OF inner] obtain es3 where
      f3: "nextAllowedRefreshAt s3 = nextAllowedRefreshAt s2"
          "trace s3 = trace s2 @ [Sleep 120] @ es3" "\<forall>x \<in> set es3. injection_effect x"
      by auto
    define mid where "mid = pre @ [Sleep 120] @ es3"
    have mid: "trace s3 = trace s @ mid" "\<forall>x \<in> set mid. raising_assignment x"
      "filter is_error_write mid = []" "nextAllowedRefreshAt s3 = nextAllowedRefreshAt s"
      using pre f3 injection_effect_quiet by (auto simp: mid_def filter_empty_conv)
    from assms True inner have body:
      "(r, s') = (case o3 of
          Inl err \<Rightarrow> catch_block e reason err s3
        | Inr result \<Rightarrow>
            if \<not> result_ok result
            then fail_with e reason extract_failed (Some (ExtractDetail (detail_of result)))
                   (if remote_rate_limited (detail_of result) then extend_cooldown e s3 else s3)
            else (RefreshOk result, emit [SetDataClearError result] s3))"
      by (cases o3) (auto simp: try_block_def s1_def s2_def Let_def split: if_splits)
    show ?thesis
    proof (cases o3)
      case (Inl err0)
      with body obtain err where "r = RefreshFail err" "s' = emit [SetLastError err] s3"
        by (auto simp: catch_block_def fail_with_def Let_def)
      with mid show ?thesis
        by (intro conjI exI[of _ "mid @ [SetLastError err]"]) (auto simp: writes_one_error_def)
    next
      case (Inr result)
      show ?thesis
      proof (cases "result_ok result")
        case True
        with body Inr have "r = RefreshOk result" "s' = emit [SetDataClearError result] s3"
          by auto
        with mid show ?thesis
          by (intro conjI exI[of _ "mid @ [SetDataClearError result]"]) (auto simp: writes_one_error_def)
      next
        case False
        define s4 where "s4 = (if remote_rate_limited (detail_of result) then extend_cooldown e s3 else s3)"
        from body Inr False obtain err where e4: "r = RefreshFail err" "s' = emit [SetLastError err] s4"
          by (auto simp: fail_with_def Let_def s4_def)
        obtain ex where ex: "trace s4 = trace s3 @ ex" "\<forall>x \<in> set ex. raising_assignment x"
          "filter is_error_write ex = []" "nextAllowedRefreshAt s3 \<le> nextAllowedRefreshAt s4"
          using extend_cooldown_spec(1,3)[of s3 e]
          by (cases "remote_rate_limited (detail_of result)") (auto simp: s4_def)
        with mid e4 show ?thesis
          by (intro conjI exI[of _ "mid @ ex @ [SetLastError err]"]) (auto simp: writes_one_error_def)
      qed
    qed
  qed
qed

lemma try_block_remote_cooldown:
  assumes "try_block e reason t c s = (RefreshFail err, s')"
      and "err_code err = extract_failed"
      and "err_detail err = Some (ExtractDetail d)"
      and "remote_rate_limited d"
  shows "clock_remote e + REMOTE_RATE_LIMIT_COOLDOWN_MS \<le> nextAllowedRefreshAt s'"
proof -
  obtain o3 s3 where inner:
    "extractDashboardWithResultRetry e t 3
       (emit [Sleep 120] (emit [WaitForTabUrl t] (if c then emit [InstallRule t] s else s))) = (o3, s3)"
    by (cases "extractDashboardWithResultRetry e t 3
       (emit [Sleep 120] (emit [WaitForTabUrl t] (if c then emit [InstallRule t] s else s)))")
  from assms(1,2,3) inner obtain result where
    res: "o3 = Inr result" "d = detail_of result"
         "s' = emit [SetLastError err] (if remote_rate_limited (detail_of result) then extend_cooldown e s3 else s3)"
    by (auto simp: try_block_def Let_def catch_block_def fail_with_def
             split: if_splits sum.splits)
  with assms(4) show ?thesis
    using extend_cooldown_spec(2)[of e s3] by simp
qed


lemma finally_block_spec:
  "nextAllowedRefreshAt (finally_block c prefs t s) = nextAllowedRefreshAt s"
  "\<exists>es. trace (finally_block c prefs t s) = trace s @ es
        \<and> (\<forall>x \<in> set es. raising_assignment x) \<and> filter is_error_write es = []"
  by (auto simp: finally_block_def Let_def)

lemma acquire_tab_spec:
  assumes "acquire_tab e s = (r, s1)"
  shows "nextAllowedRefreshAt s1 = nextAllowedRefreshAt s
         \<and> (\<exists>es. trace s1 = trace s @ es
                \<and> (\<forall>x \<in> set es. raising_assignment x) \<and> filter is_error_write es = [])"
  using assms
  by (auto simp: acquire_tab_def split: sum.splits option.splits)

lemma acquire_tab_no_throw:
  assumes "tabs_query e = Inr ts" "tabs_create e = Inr tb"
  shows "\<exists>v. fst (acquire_tab e s) = Inr v"
  using assms
  by (auto simp: acquire_tab_def findExistingDashboardTab_def split: option.splits)

lemma refresh_continue_spec:
  assumes "refresh_continue e reason s = (out, s')"
  shows "nextAllowedRefreshAt s \<le> nextAllowedRefreshAt s'
         \<and> (\<exists>es. trace s' = trace s @ es \<and> (\<forall>x \<in> set es. raising_assignment x)
                  \<and> outcome_writes out es)"
proof (cases "permissions_contains e")
  case (Inl err)
  with assms show ?thesis
    by (auto simp: refresh_continue_def outcome_writes_def)
next
  case (Inr hasPerm)
  show ?thesis
  proof (cases hasPerm)
    case False
    with assms Inr show ?thesis
      by (auto simp: refresh_continue_def outcome_writes_def writes_one_error_def fail_with_def Let_def)
  next
    case True
    show ?thesis
    proof (cases "storage_sync_get e")
      case (Inl err)
      with assms Inr True show ?thesis
        by (auto simp: refresh_continue_def outcome_writes_def)
    next
      case kept: (Inr kept)
      define s0 where "s0 = emit [PermissionsContains, StorageSyncGet] s"
      obtain a s1 where acq: "acquire_tab e s0 = (a, s1)"
        by (cases "acquire_tab e s0")
      from acquire_tab_spec[OF acq] obtain es1 where
        f1: "nextAllowedRefreshAt s1 = nextAllowedRefreshAt s"
            "trace s1 = trace s @ [PermissionsContains, StorageSyncGet] @ es1"
            "\<forall>x \<in> set es1. raising_assignment x" "filter is_error_write es1 = []"
        by (auto simp: s0_def)
      define pre where "pre = [PermissionsContains, StorageSyncGet] @ es1"
      have pre: "trace s1 = trace s @ pre" "\<forall>x \<in> set pre. raising_assignment x"
        "filter is_error_write pre = []"
        using f1 by (auto simp: pre_def)
      from assms Inr True kept acq have body:
        "(out, s') = (case a of
            Inl err \<Rightarrow> (Inl err, s1)
          | Inr (tab, createdTempTab) \<Rightarrow>
              (case usable_id tab of
                 None \<Rightarrow> (case fail_with e reason tab_create_failed None s1 of (r, s2) \<Rightarrow> (Inr r, s2))
               | Some tabId \<Rightarrow>
                   (case try_block e reason tabId createdTempTab s1 of
                      (r, s2) \<Rightarrow> (Inr r, finally_block createdTempTab (getPrefs kept) tabId s2))))"
        by (cases a) (auto simp: refresh_continue_def s0_def Let_def)
      show ?thesis
      proof (cases a)
        case (Inl err)
        with body pre f1 show ?thesis
          by (auto simp: outcome_writes_def)
      next
        case ok: (Inr tc)
        obtain tab created where tc: "tc = (tab, created)" by (cases tc)
        show ?thesis
        proof (cases "usable_id tab")
          case None
          with body ok tc obtain err where "out = Inr (RefreshFail err)" "s' = emit [SetLastError err] s1"
            by (auto simp: fail_with_def Let_def)
          with pre f1 show ?thesis
            by (intro conjI exI[of _ "pre @ [SetLastError err]"])
               (auto simp: outcome_writes_def writes_one_error_def)
        next
          case (Some tabId)
          obtain r s2 where tb: "try_block e reason tabId created s1 = (r, s2)"
            by (cases "try_block e reason tabId created s1")
          from try_block_spec[OF tb] obtain es2 where
            f2: "nextAllowedRefreshAt s1 \<le> nextAllowedRefreshAt s2" "trace s2 = trace s1 @ es2"
                "\<forall>x \<in> set es2. raising_assignment x" "writes_one_error r es2"
            by blast
          from finally_block_spec[of created "getPrefs kept" tabId s2] obtain es3 where
            f3: "nextAllowedRefreshAt (finally_block created (getPrefs kept) tabId s2) = nextAllowedRefreshAt s2"
                "trace (finally_block created (getPrefs kept) tabId s2) = trace s2 @ es3"
                "\<forall>x \<in> set es3. raising_assignment x" "filter is_error_write es3 = []"
            by blast
          from body ok tc Some tb have res: "out = Inr r"
            "s' = finally_block created (getPrefs kept) tabId s2"
            by auto
          have "writes_one_error r (pre @ es2 @ es3)"
            using f2(4) pre(3) f3(4) by (cases r) (auto simp: writes_one_error_def)
          with res pre f1 f2 f3 show ?thesis
            by (intro conjI exI[of _ "pre @ es2 @ es3"]) (auto simp: outcome_writes_def)
        qed
      qed
    qed
  qed
qed

lemma refresh_enter_limited:
  "clock_start e < nextAllowedRefreshAt s \<Longrightarrow>
   refresh_enter e reason s = (Some (limited_error e reason s), emit [SetLastError (limited_error e reason s)] s)"
  by (simp add: refresh_enter_def limited_error_def Let_def)

lemma refresh_enter_passed:
  "\<not> clock_start e < nextAllowedRefreshAt s \<Longrightarrow>
   refresh_enter e reason s
   = (None, emit [AssignNextAllowed (nextAllowedRefreshAt s) (clock_start e + MIN_REFRESH_GAP_MS)]
              (s\<lparr>nextAllowedRefreshAt := clock_start e + MIN_REFRESH_GAP_MS\<rparr>))"
  by (simp add: refresh_enter_def Let_def)

lemma refresh_limited:
  "clock_start e < nextAllowedRefreshAt s \<Longrightarrow>
   refreshDashboardData e reason s
   = (Inr (RefreshFail (limited_error e reason s)), emit [SetLastError (limited_error e reason s)] s)"
  by (simp add: refreshDashboardData_def refresh_enter_limited)

lemma refresh_passed:
  "\<not> clock_start e < nextAllowedRefreshAt s \<Longrightarrow>
   refreshDashboardData e reason s
   = refresh_continue e reason
       (emit [AssignNextAllowed (nextAllowedRefreshAt s) (clock_start e + MIN_REFRESH_GAP_MS)]
          (s\<lparr>nextAllowedRefreshAt := clock_start e + MIN_REFRESH_GAP_MS\<rparr>))"
  by (simp add: refreshDashboardData_def refresh_enter_passed)

lemma refresh_spec:
  assumes "refreshDashboardData e reason s = (out, s')"
  shows "nextAllowedRefreshAt s \<le> nextAllowedRefreshAt s'
         \<and> (\<not> clock_start e < nextAllowedRefreshAt s \<longrightarrow>
                clock_start e + MIN_REFRESH_GAP_MS \<le> nextAllowedRefreshAt s')
         \<and> (\<exists>es. trace s' = trace s @ es \<and> (\<forall>x \<in> set es. raising_assignment x)
                  \<and> outcome_writes out es)"
proof (cases "clock_start e < nextAllowedRefreshAt s")
  case True
  with assms refresh_limited[OF True, of reason] show ?thesis
    by (auto simp: outcome_writes_def writes_one_error_def)
next
  case False
  define s1 where "s1 = emit [AssignNextAllowed (nextAllowedRefreshAt s) (clock_start e + MIN_REFRESH_GAP_MS)]
          (s\<lparr>nextAllowedRefreshAt := clock_start e + MIN_REFRESH_GAP_MS\<rparr>)"
  from assms refresh_passed[OF False, of reason] have "refresh_continue e reason s1 = (out, s')"
    by (simp add: s1_def)
  from refresh_continue_spec[OF this] obtain es where
    es: "nextAllowedRefreshAt s1 \<le> nextAllowedRefreshAt s'" "trace s' = trace s1 @ es"
        "\<forall>x \<in> set es. raising_assignment x" "outcome_writes out es"
    by blast
  have s1: "nextAllowedRefreshAt s1 = clock_start e + MIN_REFRESH_GAP_MS"
    "trace s1 = trace s @ [AssignNextAllowed (nextAllowedRefreshAt s) (clock_start e + MIN_REFRESH_GAP_MS)]"
    by (simp_all add: s1_def)
  have up: "nextAllowedRefreshAt s \<le> clock_start e + MIN_REFRESH_GAP_MS"
    using False by (simp add: MIN_REFRESH_GAP_MS_def)
  have "outcome_writes out (AssignNextAllowed (nextAllowedRefreshAt s) (clock_start e + MIN_REFRESH_GAP_MS) # es)"
    using es(4) by (auto simp: outcome_writes_def writes_one_error_def split: sum.splits refresh_result.splits)
  with es s1 up False show ?thesis
    by (intro conjI exI[of _ "AssignNextAllowed (nextAllowedRefreshAt s) (clock_start e + MIN_REFRESH_GAP_MS) # es"])
       auto
qed


lemma refresh_continue_returns:
  assumes "permissions_contains e = Inr p" "storage_sync_get e = Inr k"
          "tabs_query e = Inr ts" "tabs_create e = Inr tb"
  shows "\<exists>r. fst (refresh_continue e reason s) = Inr r"
  using assms
  by (auto simp: refresh_continue_def acquire_tab_def findExistingDashboardTab_def Let_def
           split: option.splits prod.splits)

lemma refresh_returns_when_setup_succeeds:
  assumes "permissions_contains e = Inr p" "storage_sync_get e = Inr k"
          "tabs_query e = Inr ts" "tabs_create e = Inr tb"
  shows "\<exists>r es. fst (refreshDashboardData e reason s) = Inr r
           \<and> trace (snd (refreshDashboardData e reason s)) = trace s @ es
           \<and> writes_one_error r es"
proof -
  obtain out s' where run: "refreshDashboardData e reason s = (out, s')"
    by (cases "refreshDashboardData e reason s")
  have "\<exists>r. out = Inr r"
  proof (cases "clock_start e < nextAllowedRefreshAt s")
    case True
    with run refresh_limited[OF True, of reason] show ?thesis by auto
  next
    case False
    with run refresh_passed[OF False, of reason] refresh_continue_returns[OF assms]
    show ?thesis by (metis fst_conv)
  qed
  then obtain r where r: "out = Inr r" by blast
  from refresh_spec[OF run] obtain es where
    "trace s' = trace s @ es" "outcome_writes out es" by blast
  with r run show ?thesis
    by (auto simp: outcome_writes_def)
qed

lemma remote_limited_run:
  "refreshDashboardData env_remote_limited (str ''manual'') sw_initial
   = (Inr (RefreshFail \<lparr> err_at = 1001, err_reason = str ''manual'', err_code = extract_failed,
                           err_detail = Some (ExtractDetail (DetailText (str ''too_many_requests''))) \<rparr>),
      \<lparr> nextAllowedRefreshAt = 66000, attempts = 1,
        trace = [AssignNextAllowed 0 2500, PermissionsContains, StorageSyncGet, TabsQuery,
                 WaitForTabUrl 7, Sleep 120, TabsGet 7, ExecuteScript 7,
                 AssignNextAllowed 2500 66000,
                 SetLastError \<lparr> err_at = 1001, err_reason = str ''manual'', err_code = extract_failed,
                   err_detail = Some (ExtractDetail (DetailText (str ''too_many_requests''))) \<rparr>] \<rparr>)"
  by (simp add: refreshDashboardData_def refresh_enter_def refresh_continue_def acquire_tab_def
        findExistingDashboardTab_def usable_id_def try_block_def finally_block_def fail_with_def
        extend_cooldown_def remote_rate_limited_def
        extractDashboardWithResultRetry_def result_loop.simps
        executeExtractWithRetry_def extract_loop.simps inject_once_def
        env_remote_limited_def sw_initial_def emit_def retryableResult_def
        MIN_REFRESH_GAP_MS_def REMOTE_RATE_LIMIT_COOLDOWN_MS_def
        toLowerCase_def lower_unit_def str_def Let_def)

text \<open>
  C3. No assignment lowers \<open>nextAllowedRefreshAt\<close>. The two statements that assign it,
  the local gap behind the passed check (\<open>refresh_enter\<close>) and the remote cooldown
  (\<open>extend_cooldown\<close>), leave it at least as large as they found it, in whatever state
  they run; so does a whole invocation of \<open>refreshDashboardData\<close>, and every assignment
  it logs has a new value that is at least the previous one.
\<close>

theorem nextAllowedRefreshAt_never_lowered:
  "nextAllowedRefreshAt s \<le> nextAllowedRefreshAt (snd (refresh_enter e reason s))
   \<and> nextAllowedRefreshAt s \<le> nextAllowedRefreshAt (extend_cooldown e s)
   \<and> nextAllowedRefreshAt s \<le> nextAllowedRefreshAt (snd (refreshDashboardData e reason s))
   \<and> (\<exists>es. trace (snd (refreshDashboardData e reason s)) = trace s @ es
          \<and> (\<forall>x \<in> set es. raising_assignment x))"
proof -
  have a: "nextAllowedRefreshAt s \<le> nextAllowedRefreshAt (snd (refresh_enter e reason s))"
    by (simp add: refresh_enter_def Let_def MIN_REFRESH_GAP_MS_def)
  obtain out s' where run: "refreshDashboardData e reason s = (out, s')"
    by (cases "refreshDashboardData e reason s")
  from refresh_spec[OF run] run a extend_cooldown_spec(1)[of s e] show ?thesis
    by auto
qed

theorem nextAllowedRefreshAt_never_lowered_witness:
  "AssignNextAllowed 0 2500 \<in> set (trace (snd (refreshDashboardData env_remote_limited (str ''manual'') sw_initial)))
   \<and> AssignNextAllowed 2500 66000 \<in> set (trace (snd (refreshDashboardData env_remote_limited (str ''manual'') sw_initial)))
   \<and> raising_assignment (AssignNextAllowed 0 2500)
   \<and> raising_assignment (AssignNextAllowed 2500 66000)
   \<and> nextAllowedRefreshAt sw_initial
       \<le> nextAllowedRefreshAt (snd (refreshDashboardData env_remote_limited (str ''manual'') sw_initial))"
  using nextAllowedRefreshAt_never_lowered [of sw_initial env_remote_limited "str ''manual''"]
  by (simp add: remote_limited_run)

text \<open>
  C4. With \<open>now < nextAllowedRefreshAt\<close> the refresh returns the failure
  \<open>rate_limited_local\<close> and the state is the one before with the write of that error
  record appended to the effects: no tab is queried, created, waited for or injected
  into, and \<open>nextAllowedRefreshAt\<close> is as it was. Otherwise the first thing it does is
  to set \<open>nextAllowedRefreshAt = now + MIN_REFRESH_GAP_MS\<close>, and the operation goes on
  from that state; whatever happens then, a later call whose clock reads less than
  \<open>now + MIN_REFRESH_GAP_MS\<close> fails with \<open>rate_limited_local\<close> in the same way.
\<close>

theorem local_rate_limit:
  "(clock_start e < nextAllowedRefreshAt s \<longrightarrow>
      refreshDashboardData e reason s
        = (Inr (RefreshFail (limited_error e reason s)),
           emit [SetLastError (limited_error e reason s)] s)
      \<and> err_code (limited_error e reason s) = rate_limited_local)
   \<and> (\<not> clock_start e < nextAllowedRefreshAt s \<longrightarrow>
      refreshDashboardData e reason s
        = refresh_continue e reason
            (emit [AssignNextAllowed (nextAllowedRefreshAt s) (clock_start e + MIN_REFRESH_GAP_MS)]
               (s\<lparr>nextAllowedRefreshAt := clock_start e + MIN_REFRESH_GAP_MS\<rparr>))
      \<and> (\<forall>e2 reason2. clock_start e2 < clock_start e + MIN_REFRESH_GAP_MS \<longrightarrow>
             refreshDashboardData e2 reason2 (snd (refreshDashboardData e reason s))
               = (Inr (RefreshFail (limited_error e2 reason2 (snd (refreshDashboardData e reason s)))),
                  emit [SetLastError (limited_error e2 reason2 (snd (refreshDashboardData e reason s)))]
                    (snd (refreshDashboardData e reason s)))))"
proof (intro conjI impI allI)
  assume "clock_start e < nextAllowedRefreshAt s"
  then show "refreshDashboardData e reason s
        = (Inr (RefreshFail (limited_error e reason s)),
           emit [SetLastError (limited_error e reason s)] s)"
    by (rule refresh_limited)
next
  show "err_code (limited_error e reason s) = rate_limited_local"
    by (simp add: limited_error_def)
next
  assume "\<not> clock_start e < nextAllowedRefreshAt s"
  then show "refreshDashboardData e reason s
        = refresh_continue e reason
            (emit [AssignNextAllowed (nextAllowedRefreshAt s) (clock_start e + MIN_REFRESH_GAP_MS)]
               (s\<lparr>nextAllowedRefreshAt := clock_start e + MIN_REFRESH_GAP_MS\<rparr>))"
    by (rule refresh_passed)
next
  fix e2 :: env and reason2 :: jsstring
  assume pass: "\<not> clock_start e < nextAllowedRefreshAt s"
     and soon: "clock_start e2 < clock_start e + MIN_REFRESH_GAP_MS"
  obtain out s' where run: "refreshDashboardData e reason s = (out, s')"
    by (cases "refreshDashboardData e reason s")
  from refresh_spec[OF run] pass have "clock_start e + MIN_REFRESH_GAP_MS \<le> nextAllowedRefreshAt s'"
    by blast
  with soon have "clock_start e2 < nextAllowedRefreshAt s'" by simp
  from refresh_limited[OF this, of reason2] run
  show "refreshDashboardData e2 reason2 (snd (refreshDashboardData e reason s))
               = (Inr (RefreshFail (limited_error e2 reason2 (snd (refreshDashboardData e reason s)))),
                  emit [SetLastError (limited_error e2 reason2 (snd (refreshDashboardData e reason s)))]
                    (snd (refreshDashboardData e reason s)))"
    by simp
qed


lemma never_ready_refresh_state:
  "nextAllowedRefreshAt (snd (refreshDashboardData env_never_ready (str ''manual'') sw_initial)) = 2500"
  by (simp add: refreshDashboardData_def refresh_enter_def refresh_continue_def acquire_tab_def
        findExistingDashboardTab_def usable_id_def try_block_def finally_block_def fail_with_def
        extend_cooldown_def remote_rate_limited_def
        extractDashboardWithResultRetry_def result_loop.simps
        executeExtractWithRetry_def extract_loop.simps inject_once_def
        env_never_ready_def sw_initial_def emit_def retryableResult_def
        MIN_REFRESH_GAP_MS_def REMOTE_RATE_LIMIT_COOLDOWN_MS_def
        toLowerCase_def lower_unit_def str_def Let_def)

theorem local_rate_limit_witness:
  "\<not> clock_start env_never_ready < nextAllowedRefreshAt sw_initial
   \<and> clock_start env_never_ready < clock_start env_never_ready + MIN_REFRESH_GAP_MS
   \<and> clock_start env_never_ready
       < nextAllowedRefreshAt (snd (refreshDashboardData env_never_ready (str ''manual'') sw_initial))
   \<and> fst (refreshDashboardData env_never_ready (str ''ui_open'')
            (snd (refreshDashboardData env_never_ready (str ''manual'') sw_initial)))
       = Inr (RefreshFail \<lparr> err_at = 0, err_reason = str ''ui_open'', err_code = rate_limited_local,
                              err_detail = Some (CooldownUntil 2500) \<rparr>)"
proof -
  have h1: "\<not> clock_start env_never_ready < nextAllowedRefreshAt sw_initial"
    by (simp add: env_never_ready_def sw_initial_def)
  have h2: "clock_start env_never_ready < clock_start env_never_ready + MIN_REFRESH_GAP_MS"
    by (simp add: MIN_REFRESH_GAP_MS_def)
  have h3: "clock_start env_never_ready
       < nextAllowedRefreshAt (snd (refreshDashboardData env_never_ready (str ''manual'') sw_initial))"
    by (simp add: never_ready_refresh_state) (simp add: env_never_ready_def)
  have le: "limited_error env_never_ready (str ''ui_open'')
              (snd (refreshDashboardData env_never_ready (str ''manual'') sw_initial))
            = \<lparr> err_at = 0, err_reason = str ''ui_open'', err_code = rate_limited_local,
                err_detail = Some (CooldownUntil 2500) \<rparr>"
    by (simp add: limited_error_def never_ready_refresh_state) (simp add: env_never_ready_def)
  from local_rate_limit [of env_never_ready sw_initial "str ''manual''"] h1 h2
  have "refreshDashboardData env_never_ready (str ''ui_open'')
           (snd (refreshDashboardData env_never_ready (str ''manual'') sw_initial))
        = (Inr (RefreshFail (limited_error env_never_ready (str ''ui_open'')
                   (snd (refreshDashboardData env_never_ready (str ''manual'') sw_initial)))),
           emit [SetLastError (limited_error env_never_ready (str ''ui_open'')
                   (snd (refreshDashboardData env_never_ready (str ''manual'') sw_initial)))]
             (snd (refreshDashboardData env_never_ready (str ''manual'') sw_initial)))"
    by blast
  with h1 h2 h3 le show ?thesis by simp
qed

lemma refresh_extract_failed_cooldown:
  assumes "refreshDashboardData e reason s = (Inr (RefreshFail err), s')"
      and "err_code err = extract_failed"
      and "err_detail err = Some (ExtractDetail d)"
      and "remote_rate_limited d"
  shows "clock_remote e + REMOTE_RATE_LIMIT_COOLDOWN_MS \<le> nextAllowedRefreshAt s'"
proof -
  have pass: "\<not> clock_start e < nextAllowedRefreshAt s"
  proof
    assume "clock_start e < nextAllowedRefreshAt s"
    from refresh_limited[OF this, of reason] assms(1,2) show False
      by (auto simp: limited_error_def)
  qed
  define s1 where "s1 = emit [AssignNextAllowed (nextAllowedRefreshAt s) (clock_start e + MIN_REFRESH_GAP_MS)]
          (s\<lparr>nextAllowedRefreshAt := clock_start e + MIN_REFRESH_GAP_MS\<rparr>)"
  from assms(1) refresh_passed[OF pass, of reason]
  have cont: "refresh_continue e reason s1 = (Inr (RefreshFail err), s')"
    by (simp add: s1_def)
  from cont assms(2) obtain tabId created prefs s0 s2 where
    tb: "try_block e reason tabId created s0 = (RefreshFail err, s2)"
        "s' = finally_block created prefs tabId s2"
    by (auto simp: refresh_continue_def fail_with_def Let_def
             split: sum.splits if_splits prod.splits option.splits)
  from try_block_remote_cooldown[OF tb(1) assms(2,3,4)] tb(2) show ?thesis
    by (simp add: finally_block_spec(1))
qed

text \<open>
  C5. When a refresh returns \<open>extract_failed\<close> with a detail that names the remote
  limiter, \<open>nextAllowedRefreshAt\<close> is afterwards at least the clock reading taken at
  that moment plus \<open>REMOTE_RATE_LIMIT_COOLDOWN_MS\<close>, and every later call whose clock
  reads less than that fails with \<open>rate_limited_local\<close> and does nothing but persist the
  error. When the clock did not run backwards during the refresh, the floor is also at
  least the clock reading of its start plus the cooldown.
\<close>

theorem remote_cooldown_extends_floor:
  assumes "refreshDashboardData e reason s = (Inr (RefreshFail err), s')"
      and "err_code err = extract_failed"
      and "err_detail err = Some (ExtractDetail d)"
      and "remote_rate_limited d"
  shows "clock_remote e + REMOTE_RATE_LIMIT_COOLDOWN_MS \<le> nextAllowedRefreshAt s'
         \<and> (clock_start e \<le> clock_remote e \<longrightarrow>
                clock_start e + REMOTE_RATE_LIMIT_COOLDOWN_MS \<le> nextAllowedRefreshAt s')
         \<and> (\<forall>e2 reason2. clock_start e2 < clock_remote e + REMOTE_RATE_LIMIT_COOLDOWN_MS \<longrightarrow>
                refreshDashboardData e2 reason2 s'
                  = (Inr (RefreshFail (limited_error e2 reason2 s')),
                     emit [SetLastError (limited_error e2 reason2 s')] s')
                \<and> err_code (limited_error e2 reason2 s') = rate_limited_local)"
proof -
  have floor: "clock_remote e + REMOTE_RATE_LIMIT_COOLDOWN_MS \<le> nextAllowedRefreshAt s'"
    using assms by (rule refresh_extract_failed_cooldown)
  have later: "refreshDashboardData e2 reason2 s'
                  = (Inr (RefreshFail (limited_error e2 reason2 s')),
                     emit [SetLastError (limited_error e2 reason2 s')] s')
               \<and> err_code (limited_error e2 reason2 s') = rate_limited_local"
    if "clock_start e2 < clock_remote e + REMOTE_RATE_LIMIT_COOLDOWN_MS"
    for e2 :: env and reason2 :: jsstring
  proof -
    from that floor have "clock_start e2 < nextAllowedRefreshAt s'" by simp
    then have "refreshDashboardData e2 reason2 s'
                  = (Inr (RefreshFail (limited_error e2 reason2 s')),
                     emit [SetLastError (limited_error e2 reason2 s')] s')"
      by (rule refresh_limited)
    then show ?thesis by (simp add: limited_error_def)
  qed
  from floor later show ?thesis by simp
qed

lemma remote_detail_named:
  "remote_rate_limited (DetailText (str ''too_many_requests''))"
  by (simp add: remote_rate_limited_def toLowerCase_def lower_unit_def str_def)

theorem remote_cooldown_extends_floor_witness:
  "refreshDashboardData env_remote_limited (str ''manual'') sw_initial
   = (Inr (RefreshFail \<lparr> err_at = 1001, err_reason = str ''manual'', err_code = extract_failed,
                           err_detail = Some (ExtractDetail (DetailText (str ''too_many_requests''))) \<rparr>),
      \<lparr> nextAllowedRefreshAt = 66000, attempts = 1,
        trace = [AssignNextAllowed 0 2500, PermissionsContains, StorageSyncGet, TabsQuery,
                 WaitForTabUrl 7, Sleep 120, TabsGet 7, ExecuteScript 7,
                 AssignNextAllowed 2500 66000,
                 SetLastError \<lparr> err_at = 1001, err_reason = str ''manual'', err_code = extract_failed,
                   err_detail = Some (ExtractDetail (DetailText (str ''too_many_requests''))) \<rparr>] \<rparr>)
   \<and> remote_rate_limited (DetailText (str ''too_many_requests''))
   \<and> clock_remote env_remote_limited + REMOTE_RATE_LIMIT_COOLDOWN_MS \<le> 66000
   \<and> clock_start env_remote_limited \<le> clock_remote env_remote_limited
   \<and> clock_start env_remote_limited + REMOTE_RATE_LIMIT_COOLDOWN_MS \<le> 66000
   \<and> clock_start env_never_ready < clock_remote env_remote_limited + REMOTE_RATE_LIMIT_COOLDOWN_MS
   \<and> fst (refreshDashboardData env_never_ready (str ''alarm'')
            (snd (refreshDashboardData env_remote_limited (str ''manual'') sw_initial)))
       = Inr (RefreshFail \<lparr> err_at = 0, err_reason = str ''alarm'', err_code = rate_limited_local,
                              err_detail = Some (CooldownUntil 66000) \<rparr>)"
proof -
  note h1 = remote_limited_run
  note h4 = remote_detail_named
  have h5: "clock_start env_never_ready < clock_remote env_remote_limited + REMOTE_RATE_LIMIT_COOLDOWN_MS"
    by (simp add: env_never_ready_def env_remote_limited_def REMOTE_RATE_LIMIT_COOLDOWN_MS_def)
  define s1 where "s1 = snd (refreshDashboardData env_remote_limited (str ''manual'') sw_initial)"
  have s1: "nextAllowedRefreshAt s1 = 66000"
    by (simp add: s1_def h1)
  have run: "refreshDashboardData env_remote_limited (str ''manual'') sw_initial
             = (Inr (RefreshFail \<lparr> err_at = 1001, err_reason = str ''manual'', err_code = extract_failed,
                   err_detail = Some (ExtractDetail (DetailText (str ''too_many_requests''))) \<rparr>), s1)"
    by (simp add: s1_def h1)
  from remote_cooldown_extends_floor [OF run _ _ h4]
  have floor: "clock_remote env_remote_limited + REMOTE_RATE_LIMIT_COOLDOWN_MS \<le> nextAllowedRefreshAt s1"
    and mono: "clock_start env_remote_limited \<le> clock_remote env_remote_limited \<longrightarrow>
                clock_start env_remote_limited + REMOTE_RATE_LIMIT_COOLDOWN_MS \<le> nextAllowedRefreshAt s1"
    and later: "\<forall>e2 reason2. clock_start e2 < clock_remote env_remote_limited + REMOTE_RATE_LIMIT_COOLDOWN_MS \<longrightarrow>
                refreshDashboardData e2 reason2 s1
                  = (Inr (RefreshFail (limited_error e2 reason2 s1)),
                     emit [SetLastError (limited_error e2 reason2 s1)] s1)
                \<and> err_code (limited_error e2 reason2 s1) = rate_limited_local"
    by simp_all
  from later h5 have "fst (refreshDashboardData env_never_ready (str ''alarm'') s1)
                      = Inr (RefreshFail (limited_error env_never_ready (str ''alarm'') s1))"
    by simp
  moreover have "limited_error env_never_ready (str ''alarm'') s1
                 = \<lparr> err_at = 0, err_reason = str ''alarm'', err_code = rate_limited_local,
                     err_detail = Some (CooldownUntil 66000) \<rparr>"
    by (simp add: limited_error_def s1 env_never_ready_def)
  ultimately have "fst (refreshDashboardData env_never_ready (str ''alarm'') s1)
       = Inr (RefreshFail \<lparr> err_at = 0, err_reason = str ''alarm'', err_code = rate_limited_local,
                              err_detail = Some (CooldownUntil 66000) \<rparr>)"
    by simp
  moreover have h6: "clock_start env_remote_limited \<le> clock_remote env_remote_limited"
    by (simp add: env_remote_limited_def)
  moreover from mono h6 have "clock_start env_remote_limited + REMOTE_RATE_LIMIT_COOLDOWN_MS \<le> nextAllowedRefreshAt s1"
    by simp
  ultimately show ?thesis
    using h1 h4 h5 floor s1 by (simp add: s1_def)
qed

text \<open>
  C1, at an input where the claim fails. No dashboard tab is open and \<open>tabs.create\<close>
  rejects. The rejection leaves \<open>refreshDashboardData\<close> as an exception (\<open>Inl\<close>)
  instead of a tagged failure value, and the effects hold no write of a Last-Error
  record: the call stands before the \<open>try\<close> whose handler reports
  \<open>refresh_exception\<close>. The lemma \<open>refresh_returns_when_setup_succeeds\<close> above is
  the part of the claim that holds: when the permission check, the read of the
  preferences, the tab query and the tab creation do not throw, the refresh returns a
  value, and a failure comes with exactly one write, that of the returned record.
\<close>

theorem exception_escapes_refresh:
  "refreshDashboardData env_create_rejects (str ''manual'') sw_initial
   = (Inl (Error (str ''Tabs cannot be edited right now (user may be dragging a tab).'')),
      \<lparr> nextAllowedRefreshAt = 2500, attempts = 0,
        trace = [AssignNextAllowed 0 2500, PermissionsContains, StorageSyncGet,
                 TabsQuery, TabsCreate] \<rparr>)"
  by (simp add: refreshDashboardData_def refresh_enter_def refresh_continue_def acquire_tab_def
        findExistingDashboardTab_def env_create_rejects_def sw_initial_def emit_def
        MIN_REFRESH_GAP_MS_def Let_def)

section \<open>Properties of the preference store\<close>

lemma merged_explicit_stored:
  "map_of kvs ''autoRefreshExplicit'' = Some v \<Longrightarrow>
   get_prop (merged_prefs (Some (JObj kvs))) ''autoRefreshExplicit'' = v"
  by (simp add: merged_prefs_def stored_prefs_def get_prop_def map_add_def)

lemma ui_getPrefs_eq: "ui_getPrefs kept = getPrefs kept"
  by (simp add: ui_getPrefs_def getPrefs_def merged_prefs_def Let_def)

lemma getPrefs_falsy_explicit:
  "\<not> truthy (get_prop (merged_prefs kept) ''autoRefreshExplicit'') \<Longrightarrow>
   getPrefs kept ''autoRefresh'' = Some (JBool False)"
  by (simp add: getPrefs_def Let_def)

lemma getPrefs_explicit_absent:
  "map_of kvs ''autoRefreshExplicit'' = None \<Longrightarrow>
   getPrefs (Some (JObj kvs)) ''autoRefresh'' = Some (JBool False)"
  by (rule getPrefs_falsy_explicit)
     (simp add: merged_prefs_def stored_prefs_def get_prop_def map_add_def DEFAULT_PREFS_def)

text \<open>
  C9. For every stored preference object whose \<open>autoRefreshExplicit\<close> is \<open>false\<close>,
  the preferences that \<open>getPrefs\<close> returns have \<open>autoRefresh = false\<close>, whatever
  \<open>autoRefresh\<close> (and whatever else) is stored. Both readers, the background worker and
  the popup, behave so.
\<close>

theorem getPrefs_autoRefresh_forced_off:
  assumes "map_of kvs ''autoRefreshExplicit'' = Some (JBool False)"
  shows "getPrefs (Some (JObj kvs)) ''autoRefresh'' = Some (JBool False)
         \<and> ui_getPrefs (Some (JObj kvs)) ''autoRefresh'' = Some (JBool False)"
proof -
  from assms have "\<not> truthy (get_prop (merged_prefs (Some (JObj kvs))) ''autoRefreshExplicit'')"
    by (simp add: merged_explicit_stored)
  then have "getPrefs (Some (JObj kvs)) ''autoRefresh'' = Some (JBool False)"
    by (rule getPrefs_falsy_explicit)
  then show ?thesis
    by (simp add: ui_getPrefs_eq)
qed

theorem getPrefs_autoRefresh_forced_off_witness:
  "map_of [(''autoRefresh'', JBool True), (''autoRefreshExplicit'', JBool False)]
      ''autoRefreshExplicit'' = Some (JBool False)
   \<and> getPrefs (Some (JObj [(''autoRefresh'', JBool True),
                           (''autoRefreshExplicit'', JBool False)])) ''autoRefresh''
       = Some (JBool False)
   \<and> ui_getPrefs (Some (JObj [(''autoRefresh'', JBool True),
                              (''autoRefreshExplicit'', JBool False)])) ''autoRefresh''
       = Some (JBool False)"
proof -
  have h: "map_of [(''autoRefresh'', JBool True), (''autoRefreshExplicit'', JBool False)]
             ''autoRefreshExplicit'' = Some (JBool False)"
    by simp
  show ?thesis
    using h getPrefs_autoRefresh_forced_off [OF h] by simp
qed


end
